theory Spec2Isabelle
  imports Main "HOL-Library.Word"
begin

unbundle bit_operations_syntax

section \<open>Demand paging and swap in xv6 (kernel/vm.c, kernel/kalloc.c, kernel/trap.c)\<close>

text \<open>
  The kernel state is passed explicitly. Physical memory is a store from addresses to
  64-bit cells (every access of the code is an aligned 64-bit access to a page-table entry,
  or a whole-page copy or fill, so a page is its 512 cells). The table \<open>pages[]\<close> is a
  separate array of records, indexed by a natural number; a \<open>struct page *\<close> is the index
  of the entry, and the null pointer is \<open>None\<close>. A panic, a null dereference, a load
  or store of a page-table entry outside RAM and running out of fuel in a loop are error
  values.

  Of the spinlocks, \<open>lru_lock\<close> is part of the state: \<open>check_lru_consistency\<close> has a path
  that returns with it held. The other locks (\<open>page_lock\<close>, \<open>pte_lock\<close>,
  \<open>swap_bitmap_lock\<close>, \<open>swap_stats_lock\<close>, \<open>kmem.lock\<close>) are released on every path
  that acquires them and before \<open>lru_lock\<close> is released, so they are free at every call if
  they are free at boot; they and \<open>sfence_vma\<close> change nothing here.
\<close>

subsection \<open>Constants and page-table entry macros\<close>

text \<open>
  Modelled from the spec: riscv.h and memlayout.h are not among the sources. The spec gives
  4 KiB pages, three levels of 9 index bits, the flag bits V(0), R(1), W(2), X(3), U(4),
  A(6), SWAP(9), and the frame number in bits 10 and up; the addresses are those of qemu's
  virt machine, as in every xv6-riscv.
\<close>

definition PGSIZE :: "64 word" where "PGSIZE = 4096"
definition MAXVA :: "64 word" where "MAXVA = push_bit 38 1"
definition KERNBASE :: "64 word" where "KERNBASE = 0x80000000"
definition PHYSTOP :: "64 word" where "PHYSTOP = 0x88000000"
definition TRAMPOLINE :: "64 word" where "TRAMPOLINE = MAXVA - PGSIZE"

definition PTE_V :: "64 word" where "PTE_V = 1"
definition PTE_R :: "64 word" where "PTE_R = 2"
definition PTE_W :: "64 word" where "PTE_W = 4"
definition PTE_X :: "64 word" where "PTE_X = 8"
definition PTE_U :: "64 word" where "PTE_U = 16"
definition PTE_A :: "64 word" where "PTE_A = 64"
definition PTE_SWAP :: "64 word" where "PTE_SWAP = 512"

definition PA2PTE :: "64 word \<Rightarrow> 64 word" where
  "PA2PTE pa = push_bit 10 (drop_bit 12 pa)"

definition PTE2PA :: "64 word \<Rightarrow> 64 word" where
  "PTE2PA pte = push_bit 12 (drop_bit 10 pte)"

definition PTE_FLAGS :: "64 word \<Rightarrow> 64 word" where
  "PTE_FLAGS pte = pte AND 0x3FF"

definition PX :: "nat \<Rightarrow> 64 word \<Rightarrow> 64 word" where
  "PX level va = drop_bit (12 + 9 * level) va AND 0x1FF"

text \<open>\<open>PHYSTOP/PGSIZE\<close>, the length of \<open>pages[]\<close>.\<close>

definition NPAGES :: nat where "NPAGES = 0x88000"

text \<open>\<open>&pages[pa / PGSIZE]\<close>: the index of the entry.\<close>

definition pgidx :: "64 word \<Rightarrow> nat" where
  "pgidx pa = unat (pa div PGSIZE)"

text \<open>
  What the sources use and do not define is a parameter of the model: the macro
  \<open>PTE2PPN\<close> (with the conversion to \<open>int\<close> of the assignment it stands in), the
  linker symbol \<open>end\<close>, and \<open>MAX_SWAP_PAGES = SWAPMAX / PGSIZE\<close>.
\<close>

record platform =
  pte2ppn :: "64 word \<Rightarrow> int"
  kernel_end :: "64 word"
  max_swap_pages :: nat

subsection \<open>The kernel state\<close>

record page =
  pg_next :: "nat option"
  pg_prev :: "nat option"
  pg_pagetable :: "64 word"
  pg_vaddr :: "64 word"
  in_lru :: bool
  is_page_table :: bool

record kstate =
  mem :: "64 word \<Rightarrow> 64 word"
  pages :: "nat \<Rightarrow> page"
  lru_head :: "nat option"
  lru_tail :: "nat option"
  num_lru_pages :: int
  clock_hand :: "nat option"
  freelist :: "64 word list"
  swap_bitmap :: "nat \<Rightarrow> bool"
  swap_dev :: "int \<Rightarrow> 64 word \<Rightarrow> 64 word"
  swap_out_count :: int
  swap_in_count :: int
  lru_locked :: bool

datatype error = Panic string | NullDeref | Fault | OutOfFuel

text \<open>Assignments to the fields of \<open>pages[i]\<close>.\<close>

definition set_next :: "nat \<Rightarrow> nat option \<Rightarrow> kstate \<Rightarrow> kstate" where
  "set_next i v s = s\<lparr>pages := (pages s)(i := (pages s i)\<lparr>pg_next := v\<rparr>)\<rparr>"

definition set_prev :: "nat \<Rightarrow> nat option \<Rightarrow> kstate \<Rightarrow> kstate" where
  "set_prev i v s = s\<lparr>pages := (pages s)(i := (pages s i)\<lparr>pg_prev := v\<rparr>)\<rparr>"

definition set_pagetable :: "nat \<Rightarrow> 64 word \<Rightarrow> kstate \<Rightarrow> kstate" where
  "set_pagetable i v s = s\<lparr>pages := (pages s)(i := (pages s i)\<lparr>pg_pagetable := v\<rparr>)\<rparr>"

definition set_vaddr :: "nat \<Rightarrow> 64 word \<Rightarrow> kstate \<Rightarrow> kstate" where
  "set_vaddr i v s = s\<lparr>pages := (pages s)(i := (pages s i)\<lparr>pg_vaddr := v\<rparr>)\<rparr>"

definition set_in_lru :: "nat \<Rightarrow> bool \<Rightarrow> kstate \<Rightarrow> kstate" where
  "set_in_lru i v s = s\<lparr>pages := (pages s)(i := (pages s i)\<lparr>in_lru := v\<rparr>)\<rparr>"

definition set_is_page_table :: "nat \<Rightarrow> bool \<Rightarrow> kstate \<Rightarrow> kstate" where
  "set_is_page_table i v s = s\<lparr>pages := (pages s)(i := (pages s i)\<lparr>is_page_table := v\<rparr>)\<rparr>"

subsection \<open>The lock of the list and the consistency check\<close>

text \<open>
  \<open>acquire(&lru_lock.lock)\<close> and \<open>release(&lru_lock.lock)\<close> on one CPU: \<open>acquire\<close>
  panics when the CPU already holds the lock, \<open>release\<close> when it does not.
\<close>

definition acquire_lru :: "kstate \<Rightarrow> error + kstate" where
  "acquire_lru s = (if lru_locked s then Inl (Panic ''acquire'') else Inr (s\<lparr>lru_locked := True\<rparr>))"

definition release_lru :: "kstate \<Rightarrow> error + kstate" where
  "release_lru s = (if lru_locked s then Inr (s\<lparr>lru_locked := False\<rparr>) else Inl (Panic ''release''))"

text \<open>
  The count \<open>check_lru_consistency\<close> takes of the list (lines 47 to 54): it follows
  \<open>next\<close> from the head until it is back at the head, meets a null pointer or has
  counted past 100000, and compares the count with \<open>num_lru_pages\<close>.
\<close>

function lru_count_from :: "kstate \<Rightarrow> nat \<Rightarrow> nat \<Rightarrow> nat" where
  "lru_count_from s p cnt =
    (if 100000 < cnt + 1 then cnt + 1
     else (case pg_next (pages s p) of
             None \<Rightarrow> cnt + 1
           | Some q \<Rightarrow> if Some q = lru_head s then cnt + 1 else lru_count_from s q (cnt + 1)))"
  by pat_completeness auto
termination
  by (relation "measure (\<lambda>(s, p, cnt). 100001 - cnt)") auto

definition lru_count :: "kstate \<Rightarrow> nat" where
  "lru_count s = (case lru_head s of None \<Rightarrow> 0 | Some h \<Rightarrow> lru_count_from s h 0)"

text \<open>
  \<open>check_lru_consistency\<close>. Both \<open>printf\<close> calls are commented out. On the empty list
  (lines 40 to 45) that leaves \<open>release(&lru_lock.lock)\<close> as the body of
  \<open>if (num_lru_pages != 0)\<close>: with the count at 0 the function returns holding the lock.
\<close>

definition check_lru_consistency :: "kstate \<Rightarrow> error + kstate" where
  "check_lru_consistency s =
    (case acquire_lru s of
       Inl e \<Rightarrow> Inl e
     | Inr s1 \<Rightarrow>
         (case lru_head s1 of
            None \<Rightarrow> if num_lru_pages s1 \<noteq> 0 then release_lru s1 else Inr s1
          | Some h \<Rightarrow>
              let count = lru_count_from s1 h 0
              in release_lru s1))"

subsection \<open>The LRU list: lru\_add and lru\_remove\<close>

text \<open>
  The block of \<open>lru_add\<close> that takes an entry that is already linked out of the list
  (lines 112 to 118), one assignment after the other.
\<close>

definition lru_add_unlink :: "nat \<Rightarrow> kstate \<Rightarrow> kstate" where
  "lru_add_unlink p s =
    (let s1 = (case pg_prev (pages s p) of
                 Some q \<Rightarrow> set_next q (pg_next (pages s p)) s | None \<Rightarrow> s);
         s2 = (case pg_next (pages s1 p) of
                 Some q \<Rightarrow> set_prev q (pg_prev (pages s1 p)) s1 | None \<Rightarrow> s1);
         s3 = (if lru_head s2 = Some p then s2\<lparr>lru_head := pg_next (pages s2 p)\<rparr> else s2);
         s4 = (if lru_tail s3 = Some p then s3\<lparr>lru_tail := pg_prev (pages s3 p)\<rparr> else s3);
         s5 = set_prev p None (set_next p None s4);
         s6 = set_in_lru p False s5
     in s6\<lparr>num_lru_pages := num_lru_pages s6 - 1\<rparr>)"

text \<open>The block of \<open>lru_add\<close> that links the entry at the tail (lines 123 to 139).\<close>

definition lru_add_link :: "nat \<Rightarrow> bool \<Rightarrow> kstate \<Rightarrow> error + kstate" where
  "lru_add_link p was_in_list s =
    (case lru_head s of
       None \<Rightarrow>
         let s1 = s\<lparr>lru_head := Some p, lru_tail := Some p\<rparr>;
             s2 = set_next p (Some p) (set_prev p (Some p) s1);
             s3 = set_in_lru p True s2
         in Inr (s3\<lparr>num_lru_pages := 1\<rparr>)
     | Some h \<Rightarrow>
         (case lru_tail s of
            None \<Rightarrow> Inl NullDeref
          | Some t \<Rightarrow>
              let s1 = set_next p (Some h) s;
                  s2 = set_prev p (Some t) s1;
                  s3 = set_prev h (Some p) s2;
                  s4 = set_next t (Some p) s3;
                  s5 = s4\<lparr>lru_tail := Some p\<rparr>;
                  s6 = set_in_lru p True s5
              in Inr (if was_in_list then s6
                      else s6\<lparr>num_lru_pages := num_lru_pages s6 + 1\<rparr>)))"

text \<open>\<open>lru_add\<close> between taking and releasing the locks (lines 98 to 139).\<close>

definition lru_add_body :: "nat \<Rightarrow> 64 word \<Rightarrow> 64 word \<Rightarrow> kstate \<Rightarrow> error + kstate" where
  "lru_add_body p pagetable va s =
    (let s1 = set_vaddr p va (set_pagetable p pagetable s);
         was_in_list = in_lru (pages s1 p);
         s2 = (if was_in_list then
                 (if lru_head s1 = Some p \<and> pg_next (pages s1 p) = None
                     \<and> pg_prev (pages s1 p) = None
                  then s1 else lru_add_unlink p s1)
               else s1)
     in lru_add_link p was_in_list s2)"

definition lru_add :: "nat \<Rightarrow> 64 word \<Rightarrow> 64 word \<Rightarrow> bool \<Rightarrow> kstate \<Rightarrow> error + kstate" where
  "lru_add p pagetable va use_lock s =
    (if NPAGES \<le> p then Inr s
     else if MAXVA \<le> va then Inr s
     else if is_page_table (pages s p) then Inr s
     else if is_page_table (pages s p) \<or> MAXVA \<le> va then Inr s
     else
       (case (if use_lock then acquire_lru s else Inr s) of
          Inl e \<Rightarrow> Inl e
        | Inr s0 \<Rightarrow>
            (case lru_add_body p pagetable va s0 of
               Inl e \<Rightarrow> Inl e
             | Inr s3 \<Rightarrow>
                 if use_lock then
                   (case release_lru s3 of
                      Inl e \<Rightarrow> Inl e
                    | Inr s4 \<Rightarrow> check_lru_consistency s4)
                 else Inr s3)))"

text \<open>\<open>lru_remove\<close> between taking and releasing the locks (lines 163 to 177).\<close>

definition lru_unlink :: "nat \<Rightarrow> kstate \<Rightarrow> kstate" where
  "lru_unlink p s =
    (if in_lru (pages s p) then
       let s1 = (if lru_head s = Some p \<and> lru_head s = lru_tail s
                 then s\<lparr>lru_head := None, lru_tail := None\<rparr>
                 else
                   let a = (if lru_head s = Some p
                            then s\<lparr>lru_head := pg_next (pages s p)\<rparr> else s);
                       b = (if lru_tail a = Some p
                            then a\<lparr>lru_tail := pg_prev (pages a p)\<rparr> else a);
                       c = (case lru_head b of
                              Some h \<Rightarrow> set_prev h (lru_tail b) b | None \<Rightarrow> b)
                   in (case lru_tail c of
                         Some t \<Rightarrow> set_next t (lru_head c) c | None \<Rightarrow> c));
           s2 = set_next p None (set_prev p None s1);
           s3 = set_in_lru p False s2;
           s4 = set_vaddr p 0 s3
       in s4\<lparr>num_lru_pages := num_lru_pages s4 - 1\<rparr>
     else s)"

definition lru_remove :: "nat \<Rightarrow> bool \<Rightarrow> kstate \<Rightarrow> error + kstate" where
  "lru_remove p use_lock s =
    (case (if use_lock then acquire_lru s else Inr s) of
       Inl e \<Rightarrow> Inl e
     | Inr s0 \<Rightarrow>
         let s1 = lru_unlink p s0 in
         if use_lock then
           (case release_lru s1 of
              Inl e \<Rightarrow> Inl e
            | Inr s2 \<Rightarrow> check_lru_consistency s2)
         else Inr s1)"

subsection \<open>The swap bitmap and the swap device\<close>

definition allocswap :: "platform \<Rightarrow> kstate \<Rightarrow> error + (nat \<times> kstate)" where
  "allocswap P s =
    (case find (\<lambda>i. \<not> swap_bitmap s i) [0..<max_swap_pages P] of
       Some i \<Rightarrow> Inr (i, s\<lparr>swap_bitmap := (swap_bitmap s)(i := True)\<rparr>)
     | None \<Rightarrow> Inl (Panic ''allocswap: out of swap space''))"

definition freeswap :: "platform \<Rightarrow> int \<Rightarrow> kstate \<Rightarrow> error + kstate" where
  "freeswap P blkno s =
    (if blkno < 0 \<or> int (max_swap_pages P) \<le> blkno
     then Inl (Panic ''freeswap: invalid blkno'')
     else Inr (s\<lparr>swap_bitmap := (swap_bitmap s)(nat blkno := False)\<rparr>))"

text \<open>
  Modelled from the spec: \<open>swapread\<close> and \<open>swapwrite\<close> are the disk driver's; the spec
  has them copy one page between a physical frame and a swap slot, synchronously, and
  treats them as always succeeding. A slot holds the page as a map from the offset in the
  page to the cell.
\<close>

definition swapwrite :: "64 word \<Rightarrow> int \<Rightarrow> kstate \<Rightarrow> kstate" where
  "swapwrite pa blkno s =
    s\<lparr>swap_dev := (swap_dev s)(blkno := (\<lambda>off. if off < PGSIZE then mem s (pa + off) else 0))\<rparr>"

definition swapread :: "64 word \<Rightarrow> int \<Rightarrow> kstate \<Rightarrow> kstate" where
  "swapread pa blkno s =
    s\<lparr>mem := (\<lambda>a. if a - pa < PGSIZE then swap_dev s blkno (a - pa) else mem s a)\<rparr>"

text \<open>\<open>memset(pa, c, PGSIZE)\<close>, with the byte \<open>c\<close> repeated in the cell \<open>w\<close>.\<close>

definition memset_page :: "64 word \<Rightarrow> 64 word \<Rightarrow> (64 word \<Rightarrow> 64 word) \<Rightarrow> 64 word \<Rightarrow> 64 word" where
  "memset_page pa w m = (\<lambda>a. if a - pa < PGSIZE then w else m a)"

subsection \<open>walk\<close>

text \<open>
  \<open>walk\<close> calls \<open>kalloc\<close> when \<open>alloc\<close> is set, and \<open>kalloc\<close> reaches \<open>walk\<close> again
  through \<open>evictpage\<close>, there with \<open>alloc = 0\<close>. The allocator is therefore an argument
  of \<open>walk\<close>; the call sites with \<open>alloc = 0\<close> pass \<open>no_kalloc\<close>, which is never run.
  The result is the address of the entry, \<open>None\<close> for the null pointer.
\<close>

type_synonym allocator = "kstate \<Rightarrow> error + (64 word option \<times> kstate)"

definition no_kalloc :: allocator where
  "no_kalloc s = Inr (None, s)"

text \<open>
  The page-table code reaches an entry through the kernel's direct map of RAM, from
  \<open>KERNBASE\<close> up to \<open>PHYSTOP\<close> (\<open>kvmmake\<close>, lines 251 to 254). A load or store of an
  entry outside RAM, through a null or stale table pointer, is the error \<open>Fault\<close>; the
  device and trampoline mappings of \<open>kvmmake\<close> hold no page tables and count as outside.
\<close>

definition in_ram :: "64 word \<Rightarrow> bool" where
  "in_ram a = (KERNBASE \<le> a \<and> a < PHYSTOP)"

text \<open>One round of the loop over the levels 2 and 1: the next table, or null.\<close>

definition walk_level :: "allocator \<Rightarrow> bool \<Rightarrow> nat \<Rightarrow> 64 word \<Rightarrow> 64 word \<Rightarrow> kstate
    \<Rightarrow> error + (64 word option \<times> kstate)" where
  "walk_level kal alloc level pagetable va s =
    (let pte = pagetable + 8 * PX level va in
     if \<not> in_ram pte then Inl Fault
     else if mem s pte AND PTE_V \<noteq> 0 then Inr (Some (PTE2PA (mem s pte)), s)
     else if \<not> alloc then Inr (None, s)
     else (case kal s of
             Inl e \<Rightarrow> Inl e
           | Inr (None, s1) \<Rightarrow> Inr (None, s1)
           | Inr (Some pt, s1) \<Rightarrow>
               let s2 = s1\<lparr>mem := memset_page pt 0 (mem s1)\<rparr>;
                   pg = pgidx (pt - KERNBASE);
                   s3 = set_vaddr pg 0 (set_is_page_table pg True s2);
                   s4 = s3\<lparr>mem := (mem s3)(pte := PA2PTE pt OR PTE_V)\<rparr>
               in Inr (Some pt, s4)))"

definition walk :: "allocator \<Rightarrow> 64 word \<Rightarrow> 64 word \<Rightarrow> bool \<Rightarrow> kstate
    \<Rightarrow> error + (64 word option \<times> kstate)" where
  "walk kal pagetable va alloc s =
    (if MAXVA \<le> va then Inl (Panic ''walk'')
     else (case walk_level kal alloc 2 pagetable va s of
             Inl e \<Rightarrow> Inl e
           | Inr (None, s1) \<Rightarrow> Inr (None, s1)
           | Inr (Some pt1, s1) \<Rightarrow>
               (case walk_level kal alloc 1 pt1 va s1 of
                  Inl e \<Rightarrow> Inl e
                | Inr (None, s2) \<Rightarrow> Inr (None, s2)
                | Inr (Some pt0, s2) \<Rightarrow>
                    let pte = pt0 + 8 * PX 0 va
                    in Inr (if pte = 0 then None else Some pte, s2))))"

subsection \<open>kfree, the clock, evictpage and kalloc\<close>

text \<open>
  The free list is the list of its frames, head first: \<open>r->next\<close> of a frame on it is the
  rest of the list. \<open>kfree\<close> still writes the link into the first cell of the frame.
\<close>

definition kfree :: "platform \<Rightarrow> 64 word \<Rightarrow> kstate \<Rightarrow> error + kstate" where
  "kfree P pa s =
    (if pa mod PGSIZE \<noteq> 0 \<or> pa < kernel_end P \<or> PHYSTOP \<le> pa then Inl (Panic ''kfree'')
     else
       let m1 = memset_page pa 0x0101010101010101 (mem s);
           m2 = m1(pa := (case freelist s of [] \<Rightarrow> 0 | r # rest \<Rightarrow> r))
       in Inr (s\<lparr>mem := m2, freelist := pa # freelist s\<rparr>))"

text \<open>
  One round of the \<open>while (1)\<close> of \<open>select_victim\<close>, up to the test of the lap, with the
  cursor at \<open>c\<close>: the victim of rule 3 if there is one.
\<close>

definition clock_step :: "nat \<Rightarrow> kstate \<Rightarrow> error + (nat option \<times> kstate)" where
  "clock_step c s =
    (case walk no_kalloc (pg_pagetable (pages s c)) (pg_vaddr (pages s c)) False s of
       Inl e \<Rightarrow> Inl e
     | Inr (None, s0) \<Rightarrow> Inr (None, s0\<lparr>clock_hand := pg_next (pages s0 c)\<rparr>)
     | Inr (Some pte, s0) \<Rightarrow>
         if \<not> in_ram pte then Inl Fault
         else if mem s0 pte AND PTE_V = 0
            \<or> KERNBASE \<le> pg_vaddr (pages s0 c) \<or> TRAMPOLINE \<le> pg_vaddr (pages s0 c)
         then Inr (None, s0\<lparr>clock_hand := pg_next (pages s0 c)\<rparr>)
         else if mem s0 pte AND PTE_A \<noteq> 0 then
           let s1 = s0\<lparr>mem := (mem s0)(pte := mem s0 pte AND NOT PTE_A)\<rparr>;
               s2 = s1\<lparr>clock_hand := pg_next (pages s1 c)\<rparr>
           in if Some c \<noteq> lru_tail s2 then
                (case lru_remove c False s2 of
                   Inl e \<Rightarrow> Inl e
                 | Inr s3 \<Rightarrow>
                     (case lru_add c (pg_pagetable (pages s3 c)) (pg_vaddr (pages s3 c)) False s3 of
                        Inl e \<Rightarrow> Inl e
                      | Inr s4 \<Rightarrow> Inr (None, s4)))
              else Inr (None, s2)
         else Inr (Some c, s0\<lparr>clock_hand := pg_next (pages s0 c)\<rparr>))"

fun select_loop :: "nat \<Rightarrow> nat \<Rightarrow> kstate \<Rightarrow> error + (nat \<times> kstate)" where
  "select_loop 0 start s = Inl OutOfFuel"
| "select_loop (Suc n) start s =
    (case clock_hand s of
       None \<Rightarrow> Inl NullDeref
     | Some c \<Rightarrow>
         (case clock_step c s of
            Inl e \<Rightarrow> Inl e
          | Inr (Some victim, s1) \<Rightarrow> Inr (victim, s1)
          | Inr (None, s1) \<Rightarrow>
              if clock_hand s1 = Some start
              then Inr (start, s1\<lparr>clock_hand := pg_next (pages s1 start)\<rparr>)
              else select_loop n start s1))"

text \<open>
  \<open>select_victim\<close> takes the locks on entry and releases them before each \<open>return\<close>;
  the loop runs with the lock held and calls \<open>lru_remove\<close> and \<open>lru_add\<close> with
  \<open>use_lock = 0\<close>.
\<close>

definition select_victim :: "nat \<Rightarrow> kstate \<Rightarrow> error + (nat option \<times> kstate)" where
  "select_victim n s =
    (case acquire_lru s of
       Inl e \<Rightarrow> Inl e
     | Inr s0 \<Rightarrow>
         (case lru_head s0 of
            None \<Rightarrow>
              (case release_lru s0 of
                 Inl e \<Rightarrow> Inl e
               | Inr s1 \<Rightarrow> Inr (None, s1))
          | Some h \<Rightarrow>
              let s1 = (if clock_hand s0 = None then s0\<lparr>clock_hand := Some h\<rparr> else s0) in
              (case clock_hand s1 of
                 None \<Rightarrow> Inl NullDeref
               | Some c \<Rightarrow>
                   if MAXVA \<le> pg_vaddr (pages s1 c) then Inl (Panic ''clock_hand vaddr invalid'')
                   else (case select_loop n c s1 of
                           Inl e \<Rightarrow> Inl e
                         | Inr (victim, s2) \<Rightarrow>
                             (case release_lru s2 of
                                Inl e \<Rightarrow> Inl e
                              | Inr s3 \<Rightarrow> Inr (Some victim, s3))))))"

text \<open>
  \<open>blkno << 12\<close> is computed in 64 bits; it is what C computes in an \<open>int\<close> as long as
  \<open>MAX_SWAP_PAGES\<close> is at most \<open>2 ^ 19\<close>.
\<close>

definition evictpage :: "platform \<Rightarrow> nat \<Rightarrow> kstate \<Rightarrow> error + (bool \<times> kstate)" where
  "evictpage P n s =
    (case select_victim n s of
       Inl e \<Rightarrow> Inl e
     | Inr (None, s1) \<Rightarrow> Inr (False, s1)
     | Inr (Some victim, s1) \<Rightarrow>
         let victim_pagetable = pg_pagetable (pages s1 victim);
             victim_vaddr = pg_vaddr (pages s1 victim)
         in if MAXVA \<le> victim_vaddr then Inl (Panic ''invalid victim vaddr'')
            else
              (case walk no_kalloc victim_pagetable victim_vaddr False s1 of
                 Inl e \<Rightarrow> Inl e
               | Inr (None, s2) \<Rightarrow> Inr (False, s2)
               | Inr (Some pte, s2) \<Rightarrow>
                   if \<not> in_ram pte then Inl Fault
                   else if mem s2 pte AND PTE_V = 0 then Inr (False, s2)
                   else
                     let pa = PTE2PA (mem s2 pte) in
                     (case allocswap P s2 of
                        Inl e \<Rightarrow> Inl e
                      | Inr (blkno, s3) \<Rightarrow>
                          let s4 = swapwrite pa (int blkno) s3;
                              s5 = s4\<lparr>swap_out_count := swap_out_count s4 + 1\<rparr>
                          in (case lru_remove victim True s5 of
                                Inl e \<Rightarrow> Inl e
                              | Inr s6 \<Rightarrow>
                                  let flags = PTE_FLAGS (mem s6 pte)
                                                AND (PTE_R OR PTE_W OR PTE_X OR PTE_U);
                                      s7 = s6\<lparr>mem := (mem s6)(pte :=
                                             push_bit 12 (word_of_nat blkno)
                                             OR (flags AND NOT PTE_V) OR PTE_SWAP)\<rparr>
                                  in (case kfree P pa s7 of
                                        Inl e \<Rightarrow> Inl e
                                      | Inr s8 \<Rightarrow>
                                          let pg = pgidx pa;
                                              s9 = set_is_page_table pg False (set_in_lru pg False
                                                     (set_vaddr pg 0 (set_pagetable pg 0 s8)))
                                          in Inr (True, s9))))))"

text \<open>\<open>kalloc\<close>; the fuel bounds the retries and the scan of the clock.\<close>

fun kalloc :: "platform \<Rightarrow> nat \<Rightarrow> kstate \<Rightarrow> error + (64 word option \<times> kstate)" where
  "kalloc P 0 s = Inl OutOfFuel"
| "kalloc P (Suc n) s =
    (case freelist s of
       r # rest \<Rightarrow>
         Inr (Some r, s\<lparr>freelist := rest, mem := memset_page r 0x0505050505050505 (mem s)\<rparr>)
     | [] \<Rightarrow>
         (case evictpage P n s of
            Inl e \<Rightarrow> Inl e
          | Inr (ok, s1) \<Rightarrow> if ok then kalloc P n s1 else Inr (None, s1)))"

subsection \<open>walkaddr, mappages, uvmunmap, freewalk, uvmcopy\<close>

definition walkaddr :: "platform \<Rightarrow> nat \<Rightarrow> 64 word \<Rightarrow> 64 word \<Rightarrow> kstate
    \<Rightarrow> error + (64 word \<times> kstate)" where
  "walkaddr P n pagetable va s =
    (case walk no_kalloc pagetable va False s of
       Inl e \<Rightarrow> Inl e
     | Inr (None, s0) \<Rightarrow> Inr (0, s0)
     | Inr (Some pte, s0) \<Rightarrow>
         if \<not> in_ram pte then Inl Fault
         else if mem s0 pte AND PTE_V = 0 \<and> mem s0 pte AND PTE_SWAP \<noteq> 0 then
           let blkno = pte2ppn P (mem s0 pte) in
           (case kalloc P n s0 of
              Inl e \<Rightarrow> Inl e
            | Inr (None, s1) \<Rightarrow> Inr (0, s1)
            | Inr (Some m, s1) \<Rightarrow>
                let s2 = swapread m blkno s1 in
                (case freeswap P blkno s2 of
                   Inl e \<Rightarrow> Inl e
                 | Inr s3 \<Rightarrow>
                     let s4 = s3\<lparr>swap_in_count := swap_in_count s3 + 1\<rparr>;
                         s5 = s4\<lparr>mem := (mem s4)(pte :=
                                PA2PTE m OR (PTE_FLAGS (mem s4 pte) AND NOT PTE_SWAP) OR PTE_V)\<rparr>;
                         pg = pgidx m
                     in if \<not> in_lru (pages s5 pg) \<and> \<not> is_page_table (pages s5 pg)
                           \<and> va \<noteq> 0 \<and> va < MAXVA
                        then (case lru_add pg pagetable va True s5 of
                                Inl e \<Rightarrow> Inl e
                              | Inr s6 \<Rightarrow> Inr (m, s6))
                        else Inr (m, s5)))
         else if mem s0 pte AND PTE_V = 0 \<or> mem s0 pte AND PTE_U = 0 then Inr (0, s0)
         else Inr (PTE2PA (mem s0 pte), s0))"

text \<open>
  The \<open>for (;;)\<close> of \<open>mappages\<close>, with fuel for the rounds; \<open>0\<close> and \<open>-1\<close> are the
  values returned.
\<close>

fun mappages_loop :: "allocator \<Rightarrow> nat \<Rightarrow> 64 word \<Rightarrow> 64 word \<Rightarrow> 64 word \<Rightarrow> 64 word \<Rightarrow> 64 word
    \<Rightarrow> kstate \<Rightarrow> error + (int \<times> kstate)" where
  "mappages_loop kal 0 pagetable a last_a pa perm s = Inl OutOfFuel"
| "mappages_loop kal (Suc k) pagetable a last_a pa perm s =
    (case walk kal pagetable a True s of
       Inl e \<Rightarrow> Inl e
     | Inr (None, s1) \<Rightarrow> Inr (- 1, s1)
     | Inr (Some pte, s1) \<Rightarrow>
         if \<not> in_ram pte then Inl Fault
         else if mem s1 pte AND PTE_V \<noteq> 0 then Inl (Panic ''mappages: remap'')
         else
           let s2 = s1\<lparr>mem := (mem s1)(pte := PA2PTE pa OR perm OR PTE_V)\<rparr>;
               pg = pgidx pa
           in (case (if perm AND PTE_U \<noteq> 0
                        \<and> \<not> in_lru (pages s2 pg) \<and> \<not> is_page_table (pages s2 pg) \<and> a < MAXVA
                     then lru_add pg pagetable a True s2 else Inr s2) of
                 Inl e \<Rightarrow> Inl e
               | Inr s3 \<Rightarrow>
                   if a = last_a then Inr (0, s3)
                   else mappages_loop kal k pagetable (a + PGSIZE) last_a (pa + PGSIZE) perm s3))"

definition mappages :: "allocator \<Rightarrow> nat \<Rightarrow> 64 word \<Rightarrow> 64 word \<Rightarrow> 64 word \<Rightarrow> 64 word \<Rightarrow> 64 word
    \<Rightarrow> kstate \<Rightarrow> error + (int \<times> kstate)" where
  "mappages kal k pagetable va sz pa perm s =
    (if va mod PGSIZE \<noteq> 0 then Inl (Panic ''mappages: va not aligned'')
     else if sz mod PGSIZE \<noteq> 0 then Inl (Panic ''mappages: size not aligned'')
     else if sz = 0 then Inl (Panic ''mappages: size'')
     else mappages_loop kal k pagetable va (va + sz - PGSIZE) pa perm s)"

fun uvmunmap_loop :: "platform \<Rightarrow> nat \<Rightarrow> 64 word \<Rightarrow> 64 word \<Rightarrow> 64 word \<Rightarrow> bool \<Rightarrow> kstate
    \<Rightarrow> error + kstate" where
  "uvmunmap_loop P 0 pagetable a bound do_free s = Inl OutOfFuel"
| "uvmunmap_loop P (Suc k) pagetable a bound do_free s =
    (if \<not> a < bound then Inr s
     else
       (case walk no_kalloc pagetable a False s of
          Inl e \<Rightarrow> Inl e
        | Inr (None, s0) \<Rightarrow> Inl (Panic ''uvmunmap: walk'')
        | Inr (Some pte, s0) \<Rightarrow>
            if \<not> in_ram pte then Inl Fault
            else if mem s0 pte AND PTE_V = 0 then Inl (Panic ''uvmunmap: not mapped'')
            else if PTE_FLAGS (mem s0 pte) = PTE_V then Inl (Panic ''uvmunmap: not a leaf'')
            else
              (case (if do_free then
                       let pa = PTE2PA (mem s0 pte);
                           pg = pgidx pa
                       in (case (if in_lru (pages s0 pg)
                                 then (case lru_remove pg True s0 of
                                         Inl e \<Rightarrow> Inl e
                                       | Inr s1 \<Rightarrow> Inr (set_vaddr pg 0 s1))
                                 else Inr s0) of
                             Inl e \<Rightarrow> Inl e
                           | Inr s1 \<Rightarrow> kfree P pa s1)
                     else if mem s0 pte AND PTE_SWAP \<noteq> 0
                     then freeswap P (pte2ppn P (mem s0 pte)) s0
                     else Inr s0) of
                 Inl e \<Rightarrow> Inl e
               | Inr s2 \<Rightarrow>
                   uvmunmap_loop P k pagetable (a + PGSIZE) bound do_free
                     (s2\<lparr>mem := (mem s2)(pte := 0)\<rparr>))))"

definition uvmunmap :: "platform \<Rightarrow> nat \<Rightarrow> 64 word \<Rightarrow> 64 word \<Rightarrow> 64 word \<Rightarrow> bool \<Rightarrow> kstate
    \<Rightarrow> error + kstate" where
  "uvmunmap P k pagetable va npages do_free s =
    (if va mod PGSIZE \<noteq> 0 then Inl (Panic ''uvmunmap: not aligned'')
     else uvmunmap_loop P k pagetable va (va + npages * PGSIZE) do_free s)"

text \<open>One entry of the table in \<open>freewalk\<close>; \<open>rec\<close> is the recursive call.\<close>

definition freewalk_entry :: "(64 word \<Rightarrow> kstate \<Rightarrow> error + kstate) \<Rightarrow> 64 word \<Rightarrow> nat
    \<Rightarrow> error + kstate \<Rightarrow> error + kstate" where
  "freewalk_entry rec pagetable i r =
    (case r of
       Inl e \<Rightarrow> Inl e
     | Inr s \<Rightarrow>
         let pte = mem s (pagetable + 8 * word_of_nat i) in
         if \<not> in_ram (pagetable + 8 * word_of_nat i) then Inl Fault
         else if pte AND PTE_V \<noteq> 0 \<and> pte AND (PTE_R OR PTE_W OR PTE_X) = 0 then
           (case rec (PTE2PA pte) s of
              Inl e \<Rightarrow> Inl e
            | Inr s1 \<Rightarrow> Inr (s1\<lparr>mem := (mem s1)(pagetable + 8 * word_of_nat i := 0)\<rparr>))
         else if pte AND PTE_V \<noteq> 0 then Inl (Panic ''freewalk: leaf'')
         else Inr s)"

fun freewalk :: "platform \<Rightarrow> nat \<Rightarrow> 64 word \<Rightarrow> kstate \<Rightarrow> error + kstate" where
  "freewalk P 0 pagetable s = Inl OutOfFuel"
| "freewalk P (Suc d) pagetable s =
    (case fold (freewalk_entry (freewalk P d) pagetable) [0..<512] (Inr s) of
       Inl e \<Rightarrow> Inl e
     | Inr s1 \<Rightarrow>
         let pg = pgidx (pagetable - KERNBASE);
             s2 = set_vaddr pg 0 (set_is_page_table pg False s1)
         in kfree P pagetable s2)"

text \<open>
  One round of the loop of \<open>uvmcopy\<close>, for the page at \<open>i\<close>: \<open>True\<close> when the loop goes
  on, \<open>False\<close> at \<open>goto err\<close>. The fuel \<open>n\<close> is \<open>kalloc\<close>'s, \<open>u\<close> is for the rounds of
  \<open>uvmunmap\<close> and \<open>k\<close> for those of \<open>uvmcopy\<close> itself.
\<close>

definition uvmcopy_page :: "platform \<Rightarrow> nat \<Rightarrow> 64 word \<Rightarrow> 64 word \<Rightarrow> 64 word \<Rightarrow> kstate
    \<Rightarrow> error + (bool \<times> kstate)" where
  "uvmcopy_page P n old new i s =
    (case walk no_kalloc old i False s of
       Inl e \<Rightarrow> Inl e
     | Inr (None, s0) \<Rightarrow> Inl (Panic ''uvmcopy: pte should exist'')
     | Inr (Some pte, s0) \<Rightarrow>
         if \<not> in_ram pte then Inl Fault
         else if mem s0 pte AND PTE_V = 0 \<and> mem s0 pte AND PTE_SWAP \<noteq> 0 then
           (case kalloc P n s0 of
              Inl e \<Rightarrow> Inl e
            | Inr (None, s1) \<Rightarrow> Inr (False, s1)
            | Inr (Some m, s1) \<Rightarrow>
                let blkno = pte2ppn P (mem s1 pte);
                    s2 = swapread m blkno s1;
                    flags = PTE_FLAGS (mem s2 pte) AND (PTE_R OR PTE_W OR PTE_X OR PTE_U)
                in (case mappages (kalloc P n) 1 new i PGSIZE m flags s2 of
                      Inl e \<Rightarrow> Inl e
                    | Inr (r, s3) \<Rightarrow>
                        if r \<noteq> 0 then
                          (case kfree P m s3 of Inl e \<Rightarrow> Inl e | Inr s4 \<Rightarrow> Inr (False, s4))
                        else Inr (True, s3)))
         else if mem s0 pte AND PTE_V = 0 then Inl (Panic ''uvmcopy: page not present'')
         else
           let pa = PTE2PA (mem s0 pte);
               flags = PTE_FLAGS (mem s0 pte)
           in (case kalloc P n s0 of
                 Inl e \<Rightarrow> Inl e
               | Inr (None, s1) \<Rightarrow> Inr (False, s1)
               | Inr (Some m, s1) \<Rightarrow>
                   if \<not> in_ram pa then Inl Fault
                   else
                     let s2 = s1\<lparr>mem := (\<lambda>a. if a - m < PGSIZE then mem s1 (pa + (a - m))
                                             else mem s1 a)\<rparr>
                     in (case mappages (kalloc P n) 1 new i PGSIZE m flags s2 of
                           Inl e \<Rightarrow> Inl e
                         | Inr (r, s3) \<Rightarrow>
                             if r \<noteq> 0 then
                               (case kfree P m s3 of Inl e \<Rightarrow> Inl e | Inr s4 \<Rightarrow> Inr (False, s4))
                             else Inr (True, s3))))"

fun uvmcopy_loop :: "platform \<Rightarrow> nat \<Rightarrow> nat \<Rightarrow> nat \<Rightarrow> 64 word \<Rightarrow> 64 word \<Rightarrow> 64 word \<Rightarrow> 64 word \<Rightarrow> kstate
    \<Rightarrow> error + (int \<times> kstate)" where
  "uvmcopy_loop P n u 0 old new sz i s = Inl OutOfFuel"
| "uvmcopy_loop P n u (Suc k) old new sz i s =
    (if \<not> i < sz then Inr (0, s)
     else
       (case uvmcopy_page P n old new i s of
          Inl e \<Rightarrow> Inl e
        | Inr (True, s1) \<Rightarrow> uvmcopy_loop P n u k old new sz (i + PGSIZE) s1
        | Inr (False, s1) \<Rightarrow>
            (case uvmunmap P u new 0 (i div PGSIZE) True s1 of
               Inl e \<Rightarrow> Inl e
             | Inr s2 \<Rightarrow> Inr (- 1, s2))))"

definition uvmcopy :: "platform \<Rightarrow> nat \<Rightarrow> nat \<Rightarrow> nat \<Rightarrow> 64 word \<Rightarrow> 64 word \<Rightarrow> 64 word \<Rightarrow> kstate
    \<Rightarrow> error + (int \<times> kstate)" where
  "uvmcopy P n u k old new sz s = uvmcopy_loop P n u k old new sz 0 s"

subsection \<open>The page-fault path of usertrap\<close>

text \<open>
  The branch of \<open>usertrap\<close> for \<open>scause\<close> 13 and 15 (lines 72 to 126), for the process
  with page table \<open>pagetable\<close> and the faulting address \<open>va\<close>. The result is the value of
  \<open>p->killed\<close> the branch leaves.
\<close>

definition usertrap_pagefault :: "platform \<Rightarrow> nat \<Rightarrow> 64 word \<Rightarrow> 64 word \<Rightarrow> kstate
    \<Rightarrow> error + (bool \<times> kstate)" where
  "usertrap_pagefault P n pagetable va s =
    (case walk no_kalloc pagetable va False s of
       Inl e \<Rightarrow> Inl e
     | Inr (None, s0) \<Rightarrow> Inr (True, s0)
     | Inr (Some pte, s0) \<Rightarrow>
         if \<not> in_ram pte then Inl Fault
         else if mem s0 pte AND PTE_SWAP = 0 then Inr (True, s0)
         else
           (case (case kalloc P n s0 of
                    Inl e \<Rightarrow> Inl e
                  | Inr (Some m, s1) \<Rightarrow> Inr (Some m, s1)
                  | Inr (None, s1) \<Rightarrow>
                      (case evictpage P n s1 of
                         Inl e \<Rightarrow> Inl e
                       | Inr (ok, s2) \<Rightarrow> if ok then kalloc P n s2 else Inr (None, s2))) of
              Inl e \<Rightarrow> Inl e
            | Inr (None, s3) \<Rightarrow> Inr (True, s3)
            | Inr (Some m, s3) \<Rightarrow>
                let blkno = pte2ppn P (mem s3 pte);
                    s4 = swapread m blkno s3
                in (case freeswap P blkno s4 of
                      Inl e \<Rightarrow> Inl e
                    | Inr s5 \<Rightarrow>
                        let flags = PTE_FLAGS (mem s5 pte) AND (PTE_R OR PTE_W OR PTE_X OR PTE_U);
                            s6 = s5\<lparr>mem := (mem s5)(pte :=
                                   PA2PTE m OR (flags AND NOT PTE_SWAP) OR PTE_V)\<rparr>;
                            pg = pgidx m
                        in if \<not> in_lru (pages s6 pg) \<and> \<not> is_page_table (pages s6 pg) \<and> va < MAXVA
                           then (case lru_add pg pagetable va True s6 of
                                   Inl e \<Rightarrow> Inl e
                                 | Inr s7 \<Rightarrow> Inr (False, s7))
                           else Inr (False, s6))))"

subsection \<open>Concrete states\<close>

definition empty_page :: page where
  "empty_page = \<lparr>pg_next = None, pg_prev = None, pg_pagetable = 0, pg_vaddr = 0,
     in_lru = False, is_page_table = False\<rparr>"

text \<open>The state \<open>kinit\<close> leaves before \<open>freerange\<close>: no entry linked, nothing free.\<close>

definition boot_state :: kstate where
  "boot_state = \<lparr>mem = (\<lambda>a. 0), pages = (\<lambda>i. empty_page), lru_head = None, lru_tail = None,
     num_lru_pages = 0, clock_hand = None, freelist = [], swap_bitmap = (\<lambda>i. False),
     swap_dev = (\<lambda>b off. 0), swap_out_count = 0, swap_in_count = 0, lru_locked = False\<rparr>"

definition linked :: "nat \<Rightarrow> nat \<Rightarrow> 64 word \<Rightarrow> 64 word \<Rightarrow> page" where
  "linked n p pt va = \<lparr>pg_next = Some n, pg_prev = Some p, pg_pagetable = pt, pg_vaddr = va,
     in_lru = True, is_page_table = False\<rparr>"

text \<open>A list of two entries, 1 at the head and 2 at the tail.\<close>

definition lru_two :: kstate where
  "lru_two = boot_state\<lparr>pages := (\<lambda>i. empty_page)(1 := linked 2 2 0 0x1000, 2 := linked 1 1 0 0x2000),
     lru_head := Some 1, lru_tail := Some 2, num_lru_pages := 2\<rparr>"

text \<open>
  What \<open>walk\<close> returns when \<open>alloc = 0\<close> and \<open>va < MAXVA\<close>, as a function of the
  memory: a fault, the null pointer, or the address of the level-0 entry for \<open>va\<close>.
\<close>

definition walk0 :: "(64 word \<Rightarrow> 64 word) \<Rightarrow> 64 word \<Rightarrow> 64 word \<Rightarrow> error + 64 word option" where
  "walk0 m pagetable va =
    (let c2 = pagetable + 8 * PX 2 va in
     if \<not> in_ram c2 then Inl Fault
     else if m c2 AND PTE_V = 0 then Inr None
     else let c1 = PTE2PA (m c2) + 8 * PX 1 va in
          if \<not> in_ram c1 then Inl Fault
          else if m c1 AND PTE_V = 0 then Inr None
          else let pte = PTE2PA (m c1) + 8 * PX 0 va
               in Inr (if pte = 0 then None else Some pte))"

text \<open>
  \<open>pte_slot m pagetable va = Some pte\<close>: \<open>walk\<close> with \<open>alloc = 0\<close> finds the entries of
  levels 2 and 1 in RAM and valid, and the level-0 entry \<open>pte\<close> it returns is in RAM.
\<close>

definition pte_slot :: "(64 word \<Rightarrow> 64 word) \<Rightarrow> 64 word \<Rightarrow> 64 word \<Rightarrow> 64 word option" where
  "pte_slot m pagetable va =
    (case walk0 m pagetable va of
       Inr (Some pte) \<Rightarrow> if in_ram pte then Some pte else None
     | _ \<Rightarrow> None)"

text \<open>
  A platform with eight swap slots, where \<open>PTE2PPN\<close> gives back what \<open>evictpage\<close> stores
  with \<open>blkno << 12\<close> and the assignment to \<open>int blkno\<close> keeps the low 32 bits, signed.
  Then a page table at \<open>0x87000000\<close> whose only leaf entry is \<open>leaf\<close>, at the address
  \<open>slot\<close> in the level-0 table at \<open>0x87002000\<close>.
\<close>

definition small_platform :: platform where
  "small_platform = \<lparr>pte2ppn = (\<lambda>pte. sint (ucast (drop_bit 12 pte) :: 32 word)),
     kernel_end = 0x80100000, max_swap_pages = 8\<rparr>"

definition pt_mem :: "64 word \<Rightarrow> 64 word \<Rightarrow> 64 word \<Rightarrow> 64 word" where
  "pt_mem slot leaf = (\<lambda>a. 0)(0x87000000 := 0x21C00401, 0x87001000 := 0x21C00801, slot := leaf)"

definition one_page :: "64 word \<Rightarrow> 64 word \<Rightarrow> kstate" where
  "one_page slot leaf = boot_state\<lparr>mem := pt_mem slot leaf\<rparr>"

text \<open>
  One user page at \<open>0x1000\<close>, readable, writable, resident in the frame \<open>0x87003000\<close>
  and alone on the list.
\<close>

definition resident_state :: kstate where
  "resident_state = boot_state\<lparr>mem := pt_mem 0x87002008 0x21C00C17,
     pages := (\<lambda>i. empty_page)(0x87003 := linked 0x87003 0x87003 0x87000000 0x1000),
     lru_head := Some 0x87003, lru_tail := Some 0x87003, num_lru_pages := 1\<rparr>"

section \<open>Properties\<close>

subsection \<open>Basic facts\<close>

lemmas setters = set_next_def set_prev_def set_pagetable_def set_vaddr_def set_in_lru_def
  set_is_page_table_def

declare lru_count_from.simps [simp del]

lemmas kdefs = PGSIZE_def MAXVA_def KERNBASE_def PHYSTOP_def TRAMPOLINE_def PTE_V_def PTE_R_def PTE_W_def
  PTE_X_def PTE_U_def PTE_A_def PTE_SWAP_def PA2PTE_def PTE2PA_def PTE_FLAGS_def PX_def NPAGES_def pgidx_def
  in_ram_def

lemma setters_frame [simp]:
  "mem (set_next i v s) = mem s" "freelist (set_next i v s) = freelist s" "swap_bitmap (set_next i v s) = swap_bitmap s" "swap_dev (set_next i v s) = swap_dev s"
  "lru_head (set_next i v s) = lru_head s" "lru_tail (set_next i v s) = lru_tail s" "clock_hand (set_next i v s) = clock_hand s" "num_lru_pages (set_next i v s) = num_lru_pages s"
  "mem (set_prev i v s) = mem s" "freelist (set_prev i v s) = freelist s" "swap_bitmap (set_prev i v s) = swap_bitmap s" "swap_dev (set_prev i v s) = swap_dev s"
  "lru_head (set_prev i v s) = lru_head s" "lru_tail (set_prev i v s) = lru_tail s" "clock_hand (set_prev i v s) = clock_hand s" "num_lru_pages (set_prev i v s) = num_lru_pages s"
  "mem (set_pagetable i w s) = mem s" "freelist (set_pagetable i w s) = freelist s" "swap_bitmap (set_pagetable i w s) = swap_bitmap s" "swap_dev (set_pagetable i w s) = swap_dev s"
  "lru_head (set_pagetable i w s) = lru_head s" "lru_tail (set_pagetable i w s) = lru_tail s" "clock_hand (set_pagetable i w s) = clock_hand s" "num_lru_pages (set_pagetable i w s) = num_lru_pages s"
  "mem (set_vaddr i w s) = mem s" "freelist (set_vaddr i w s) = freelist s" "swap_bitmap (set_vaddr i w s) = swap_bitmap s" "swap_dev (set_vaddr i w s) = swap_dev s"
  "lru_head (set_vaddr i w s) = lru_head s" "lru_tail (set_vaddr i w s) = lru_tail s" "clock_hand (set_vaddr i w s) = clock_hand s" "num_lru_pages (set_vaddr i w s) = num_lru_pages s"
  "mem (set_in_lru i b s) = mem s" "freelist (set_in_lru i b s) = freelist s" "swap_bitmap (set_in_lru i b s) = swap_bitmap s" "swap_dev (set_in_lru i b s) = swap_dev s"
  "lru_head (set_in_lru i b s) = lru_head s" "lru_tail (set_in_lru i b s) = lru_tail s" "clock_hand (set_in_lru i b s) = clock_hand s" "num_lru_pages (set_in_lru i b s) = num_lru_pages s"
  "mem (set_is_page_table i b s) = mem s" "freelist (set_is_page_table i b s) = freelist s" "swap_bitmap (set_is_page_table i b s) = swap_bitmap s" "swap_dev (set_is_page_table i b s) = swap_dev s"
  "lru_head (set_is_page_table i b s) = lru_head s" "lru_tail (set_is_page_table i b s) = lru_tail s" "clock_hand (set_is_page_table i b s) = clock_hand s" "num_lru_pages (set_is_page_table i b s) = num_lru_pages s"
  by (simp_all add: setters)

lemma setters_locked [simp]:
  "lru_locked (set_next i v s) = lru_locked s" "lru_locked (set_prev i v s) = lru_locked s"
  "lru_locked (set_pagetable i w s) = lru_locked s" "lru_locked (set_vaddr i w s) = lru_locked s"
  "lru_locked (set_in_lru i b s) = lru_locked s" "lru_locked (set_is_page_table i b s) = lru_locked s"
  by (simp_all add: setters)

lemma setters_pages [simp]:
  "pg_next (pages (set_next i v s) j) = (if j = i then v else pg_next (pages s j))"
  "pg_prev (pages (set_next i v s) j) = pg_prev (pages s j)"
  "pg_pagetable (pages (set_next i v s) j) = pg_pagetable (pages s j)"
  "pg_vaddr (pages (set_next i v s) j) = pg_vaddr (pages s j)"
  "in_lru (pages (set_next i v s) j) = in_lru (pages s j)"
  "is_page_table (pages (set_next i v s) j) = is_page_table (pages s j)"
  "pg_next (pages (set_prev i v s) j) = pg_next (pages s j)"
  "pg_prev (pages (set_prev i v s) j) = (if j = i then v else pg_prev (pages s j))"
  "pg_pagetable (pages (set_prev i v s) j) = pg_pagetable (pages s j)"
  "pg_vaddr (pages (set_prev i v s) j) = pg_vaddr (pages s j)"
  "in_lru (pages (set_prev i v s) j) = in_lru (pages s j)"
  "is_page_table (pages (set_prev i v s) j) = is_page_table (pages s j)"
  "pg_next (pages (set_pagetable i w s) j) = pg_next (pages s j)"
  "pg_prev (pages (set_pagetable i w s) j) = pg_prev (pages s j)"
  "pg_pagetable (pages (set_pagetable i w s) j) = (if j = i then w else pg_pagetable (pages s j))"
  "pg_vaddr (pages (set_pagetable i w s) j) = pg_vaddr (pages s j)"
  "in_lru (pages (set_pagetable i w s) j) = in_lru (pages s j)"
  "is_page_table (pages (set_pagetable i w s) j) = is_page_table (pages s j)"
  "pg_next (pages (set_vaddr i w s) j) = pg_next (pages s j)"
  "pg_prev (pages (set_vaddr i w s) j) = pg_prev (pages s j)"
  "pg_pagetable (pages (set_vaddr i w s) j) = pg_pagetable (pages s j)"
  "pg_vaddr (pages (set_vaddr i w s) j) = (if j = i then w else pg_vaddr (pages s j))"
  "in_lru (pages (set_vaddr i w s) j) = in_lru (pages s j)"
  "is_page_table (pages (set_vaddr i w s) j) = is_page_table (pages s j)"
  "pg_next (pages (set_in_lru i b s) j) = pg_next (pages s j)"
  "pg_prev (pages (set_in_lru i b s) j) = pg_prev (pages s j)"
  "pg_pagetable (pages (set_in_lru i b s) j) = pg_pagetable (pages s j)"
  "pg_vaddr (pages (set_in_lru i b s) j) = pg_vaddr (pages s j)"
  "in_lru (pages (set_in_lru i b s) j) = (if j = i then b else in_lru (pages s j))"
  "is_page_table (pages (set_in_lru i b s) j) = is_page_table (pages s j)"
  "pg_next (pages (set_is_page_table i b s) j) = pg_next (pages s j)"
  "pg_prev (pages (set_is_page_table i b s) j) = pg_prev (pages s j)"
  "pg_pagetable (pages (set_is_page_table i b s) j) = pg_pagetable (pages s j)"
  "pg_vaddr (pages (set_is_page_table i b s) j) = pg_vaddr (pages s j)"
  "in_lru (pages (set_is_page_table i b s) j) = in_lru (pages s j)"
  "is_page_table (pages (set_is_page_table i b s) j) = (if j = i then b else is_page_table (pages s j))"
  by (simp_all add: setters)

subsection \<open>walk without allocation\<close>

lemma walk_noalloc:
  "walk kal pagetable va False s =
     (if MAXVA \<le> va then Inl (Panic ''walk'')
      else (case walk0 (mem s) pagetable va of Inl e \<Rightarrow> Inl e | Inr r \<Rightarrow> Inr (r, s)))"
  by (simp add: walk_def walk_level_def walk0_def Let_def)

lemma pte_slot_in_ram: "pte_slot m pagetable va = Some pte \<Longrightarrow> in_ram pte"
  by (auto simp: pte_slot_def split: sum.splits option.splits if_splits)

lemma walk_slot:
  "pte_slot (mem s) pagetable va = Some pte \<Longrightarrow> va < MAXVA \<Longrightarrow>
     walk kal pagetable va False s = Inr (Some pte, s)"
  by (auto simp: walk_noalloc pte_slot_def split: sum.splits option.splits if_splits)

subsection \<open>The lock\<close>

lemma check_lru_consistency_free:
  "\<not> lru_locked s \<Longrightarrow>
     check_lru_consistency s = Inr (s\<lparr>lru_locked := (lru_head s = None \<and> num_lru_pages s = 0)\<rparr>)"
  by (simp add: check_lru_consistency_def acquire_lru_def release_lru_def Let_def split: option.split)

lemma lru_unlink_frame [simp]:
  "mem (lru_unlink p s) = mem s" "freelist (lru_unlink p s) = freelist s"
  "swap_bitmap (lru_unlink p s) = swap_bitmap s" "swap_dev (lru_unlink p s) = swap_dev s"
  "clock_hand (lru_unlink p s) = clock_hand s" "lru_locked (lru_unlink p s) = lru_locked s"
  by (simp_all add: lru_unlink_def Let_def split: option.split)

lemma lru_add_unlink_frame [simp]:
  "mem (lru_add_unlink p s) = mem s" "freelist (lru_add_unlink p s) = freelist s"
  "swap_bitmap (lru_add_unlink p s) = swap_bitmap s" "swap_dev (lru_add_unlink p s) = swap_dev s"
  "clock_hand (lru_add_unlink p s) = clock_hand s" "lru_locked (lru_add_unlink p s) = lru_locked s"
  by (simp_all add: lru_add_unlink_def Let_def split: option.split)

lemma setters_lock_out:
  "set_next i v (s\<lparr>lru_locked := b\<rparr>) = (set_next i v s)\<lparr>lru_locked := b\<rparr>"
  "set_prev i v (s\<lparr>lru_locked := b\<rparr>) = (set_prev i v s)\<lparr>lru_locked := b\<rparr>"
  "set_pagetable i w (s\<lparr>lru_locked := b\<rparr>) = (set_pagetable i w s)\<lparr>lru_locked := b\<rparr>"
  "set_vaddr i w (s\<lparr>lru_locked := b\<rparr>) = (set_vaddr i w s)\<lparr>lru_locked := b\<rparr>"
  "set_in_lru i c (s\<lparr>lru_locked := b\<rparr>) = (set_in_lru i c s)\<lparr>lru_locked := b\<rparr>"
  "set_is_page_table i c (s\<lparr>lru_locked := b\<rparr>) = (set_is_page_table i c s)\<lparr>lru_locked := b\<rparr>"
  by (simp_all add: setters)

lemma fields_lock_out:
  "s\<lparr>lru_locked := b, lru_head := h\<rparr> = s\<lparr>lru_head := h, lru_locked := b\<rparr>"
  "s\<lparr>lru_locked := b, lru_tail := t\<rparr> = s\<lparr>lru_tail := t, lru_locked := b\<rparr>"
  "s\<lparr>lru_locked := b, num_lru_pages := k\<rparr> = s\<lparr>num_lru_pages := k, lru_locked := b\<rparr>"
  "s\<lparr>lru_locked := b, clock_hand := c\<rparr> = s\<lparr>clock_hand := c, lru_locked := b\<rparr>"
  "s\<lparr>lru_locked := b, mem := m\<rparr> = s\<lparr>mem := m, lru_locked := b\<rparr>"
  "s\<lparr>lru_locked := b, pages := pg\<rparr> = s\<lparr>pages := pg, lru_locked := b\<rparr>"
  by simp_all

lemma lru_unlink_lock_out:
  "lru_unlink p (s\<lparr>lru_locked := b\<rparr>) = (lru_unlink p s)\<lparr>lru_locked := b\<rparr>"
  by (simp add: lru_unlink_def Let_def setters_lock_out fields_lock_out split: option.split)

lemma lru_add_unlink_lock_out:
  "lru_add_unlink p (s\<lparr>lru_locked := b\<rparr>) = (lru_add_unlink p s)\<lparr>lru_locked := b\<rparr>"
  by (simp add: lru_add_unlink_def Let_def setters_lock_out fields_lock_out split: option.split)

lemma lru_add_link_lock_out:
  "lru_add_link p w (s\<lparr>lru_locked := b\<rparr>) =
     (case lru_add_link p w s of Inl e \<Rightarrow> Inl e | Inr s' \<Rightarrow> Inr (s'\<lparr>lru_locked := b\<rparr>))"
  by (simp add: lru_add_link_def Let_def setters_lock_out fields_lock_out split: option.split)

lemma lru_add_body_lock_out:
  "lru_add_body p pt va (s\<lparr>lru_locked := b\<rparr>) =
     (case lru_add_body p pt va s of Inl e \<Rightarrow> Inl e | Inr s' \<Rightarrow> Inr (s'\<lparr>lru_locked := b\<rparr>))"
  by (simp add: lru_add_body_def Let_def setters_lock_out lru_add_unlink_lock_out lru_add_link_lock_out)


lemma lru_add_body_post_case:
  "case lru_add_body p pt va s of Inl e \<Rightarrow> True
   | Inr s' \<Rightarrow> lru_head s' \<noteq> None \<and> lru_locked s' = lru_locked s
       \<and> freelist s' = freelist s \<and> swap_bitmap s' = swap_bitmap s \<and> mem s' = mem s
       \<and> swap_dev s' = swap_dev s \<and> clock_hand s' = clock_hand s"
  by (simp add: lru_add_body_def lru_add_link_def Let_def split: option.split)

lemma lru_add_body_post:
  assumes "lru_add_body p pt va s = Inr s'"
  shows "lru_head s' \<noteq> None" "lru_locked s' = lru_locked s"
    "freelist s' = freelist s" "swap_bitmap s' = swap_bitmap s" "mem s' = mem s"
    "swap_dev s' = swap_dev s" "clock_hand s' = clock_hand s"
  using lru_add_body_post_case [where p = p and pt = pt and va = va and s = s] assms by simp_all

lemma lru_add_unlocked:
  "lru_add p pt va False s =
     (if NPAGES \<le> p \<or> MAXVA \<le> va \<or> is_page_table (pages s p) then Inr s
      else lru_add_body p pt va s)"
  by (simp add: lru_add_def split: sum.split)

lemma lru_add_locked:
  assumes "\<not> lru_locked s"
  shows "lru_add p pt va True s = lru_add p pt va False s"
proof (cases "NPAGES \<le> p \<or> MAXVA \<le> va \<or> is_page_table (pages s p)")
  case True
  then show ?thesis by (auto simp: lru_add_def)
next
  case False
  show ?thesis
  proof (cases "lru_add_body p pt va s")
    case (Inl e)
    with False assms show ?thesis
      by (simp add: lru_add_def acquire_lru_def lru_add_body_lock_out)
  next
    case (Inr s3)
    note post = lru_add_body_post [OF Inr]
    from post(2) assms have l3: "\<not> lru_locked s3" by simp
    then have s3: "s3\<lparr>lru_locked := False\<rparr> = s3" by simp
    from post(1) l3 have "check_lru_consistency s3 = Inr s3"
      by (simp add: check_lru_consistency_free)
    with False assms Inr show ?thesis
      by (simp add: lru_add_def acquire_lru_def lru_add_body_lock_out release_lru_def s3)
  qed
qed

lemma lru_add_held:
  "lru_locked s \<Longrightarrow> lru_add p pt va True s =
     (if NPAGES \<le> p \<or> MAXVA \<le> va \<or> is_page_table (pages s p) then Inr s
      else Inl (Panic ''acquire''))"
  by (simp add: lru_add_def acquire_lru_def)

lemma lru_remove_unlocked: "lru_remove p False s = Inr (lru_unlink p s)"
  by (simp add: lru_remove_def)

lemma lru_remove_locked:
  assumes "\<not> lru_locked s"
  shows "lru_remove p True s =
     Inr ((lru_unlink p s)\<lparr>lru_locked :=
            (lru_head (lru_unlink p s) = None \<and> num_lru_pages (lru_unlink p s) = 0)\<rparr>)"
proof -
  have u: "\<not> lru_locked (lru_unlink p s)" using assms by simp
  then have e: "(lru_unlink p s)\<lparr>lru_locked := False\<rparr> = lru_unlink p s" by simp
  show ?thesis
    using assms
    by (simp add: lru_remove_def acquire_lru_def lru_unlink_lock_out release_lru_def Let_def e
        check_lru_consistency_free [OF u])
qed

subsection \<open>What the list operations leave alone\<close>

lemma lru_add_frame_case:
  "case lru_add p pt va l s of Inl e \<Rightarrow> True
   | Inr s' \<Rightarrow> freelist s' = freelist s \<and> swap_bitmap s' = swap_bitmap s \<and> mem s' = mem s
       \<and> swap_dev s' = swap_dev s \<and> clock_hand s' = clock_hand s \<and> lru_locked s' = lru_locked s"
proof -
  have u: "case lru_add p pt va False s of Inl e \<Rightarrow> True
   | Inr s' \<Rightarrow> freelist s' = freelist s \<and> swap_bitmap s' = swap_bitmap s \<and> mem s' = mem s
       \<and> swap_dev s' = swap_dev s \<and> clock_hand s' = clock_hand s \<and> lru_locked s' = lru_locked s"
    using lru_add_body_post_case [where p = p and pt = pt and va = va and s = s]
    by (simp add: lru_add_unlocked split: sum.splits)
  show ?thesis
  proof (cases l)
    case False
    with u show ?thesis by simp
  next
    case True
    show ?thesis
    proof (cases "lru_locked s")
      case False
      with True u show ?thesis by (simp add: lru_add_locked)
    next
      case held: True
      with True show ?thesis by (simp add: lru_add_held)
    qed
  qed
qed

lemma lru_add_frame:
  assumes "lru_add p pt va l s = Inr s'"
  shows "freelist s' = freelist s" "swap_bitmap s' = swap_bitmap s" "mem s' = mem s"
    "swap_dev s' = swap_dev s" "clock_hand s' = clock_hand s" "lru_locked s' = lru_locked s"
  using lru_add_frame_case [where p = p and pt = pt and va = va and l = l and s = s] assms by simp_all

lemma lru_remove_frame:
  assumes "lru_remove p l s = Inr s'"
  shows "freelist s' = freelist s" "swap_bitmap s' = swap_bitmap s" "mem s' = mem s"
    "swap_dev s' = swap_dev s" "clock_hand s' = clock_hand s"
    "lru_head s' = lru_head (lru_unlink p s)" "lru_tail s' = lru_tail (lru_unlink p s)"
    "pages s' = pages (lru_unlink p s)" "num_lru_pages s' = num_lru_pages (lru_unlink p s)"
proof -
  have "s' = lru_unlink p s \<or> (\<exists>b. s' = (lru_unlink p s)\<lparr>lru_locked := b\<rparr>)"
  proof (cases l)
    case False
    with assms show ?thesis by (simp add: lru_remove_unlocked)
  next
    case True
    show ?thesis
    proof (cases "lru_locked s")
      case False
      with True assms show ?thesis by (auto simp: lru_remove_locked)
    next
      case held: True
      with True assms show ?thesis by (simp add: lru_remove_def acquire_lru_def)
    qed
  qed
  then show "freelist s' = freelist s" "swap_bitmap s' = swap_bitmap s" "mem s' = mem s"
    "swap_dev s' = swap_dev s" "clock_hand s' = clock_hand s"
    "lru_head s' = lru_head (lru_unlink p s)" "lru_tail s' = lru_tail (lru_unlink p s)"
    "pages s' = pages (lru_unlink p s)" "num_lru_pages s' = num_lru_pages (lru_unlink p s)"
    by auto
qed

lemma clock_step_frame_case:
  "case clock_step c s of Inl e \<Rightarrow> True
   | Inr (r, s') \<Rightarrow> freelist s' = freelist s \<and> swap_bitmap s' = swap_bitmap s \<and> swap_dev s' = swap_dev s
       \<and> lru_locked s' = lru_locked s"
  unfolding clock_step_def walk_noalloc
  by (simp add: Let_def lru_add_frame lru_remove_unlocked split: option.split sum.split)

lemma clock_step_frame:
  assumes "clock_step c s = Inr (r, s')"
  shows "freelist s' = freelist s" "swap_bitmap s' = swap_bitmap s" "swap_dev s' = swap_dev s"
    "lru_locked s' = lru_locked s"
  using clock_step_frame_case [where c = c and s = s] assms by simp_all

lemma select_loop_frame:
  "select_loop n start s = Inr (r, s') \<Longrightarrow>
     freelist s' = freelist s \<and> swap_bitmap s' = swap_bitmap s \<and> swap_dev s' = swap_dev s
       \<and> lru_locked s' = lru_locked s"
proof (induction n arbitrary: s)
  case 0
  then show ?case by simp
next
  case (Suc n)
  from Suc.prems obtain c where c: "clock_hand s = Some c"
    by (cases "clock_hand s") auto
  from Suc.prems c obtain v s1 where st: "clock_step c s = Inr (v, s1)"
    by (cases "clock_step c s") auto
  note fr = clock_step_frame [OF st]
  show ?case
  proof (cases v)
    case (Some victim)
    with Suc.prems c st fr show ?thesis by simp
  next
    case None
    show ?thesis
    proof (cases "clock_hand s1 = Some start")
      case True
      with Suc.prems c st None fr show ?thesis by auto
    next
      case False
      with Suc.prems c st None have "select_loop n start s1 = Inr (r, s')" by simp
      from Suc.IH [OF this] fr show ?thesis by simp
    qed
  qed
qed

lemma select_victim_frame:
  assumes "select_victim n s = Inr (r, s')"
  shows "freelist s' = freelist s \<and> swap_bitmap s' = swap_bitmap s \<and> swap_dev s' = swap_dev s
     \<and> \<not> lru_locked s \<and> \<not> lru_locked s'"
proof -
  from assms have free: "\<not> lru_locked s"
    by (auto simp: select_victim_def acquire_lru_def split: if_splits)
  define s0 where "s0 = s\<lparr>lru_locked := True\<rparr>"
  have acq: "acquire_lru s = Inr s0" using free by (simp add: acquire_lru_def s0_def)
  show ?thesis
  proof (cases "lru_head s")
    case None
    with assms acq free show ?thesis
      by (auto simp: select_victim_def release_lru_def s0_def)
  next
    case (Some h)
    define s1 where "s1 = (if clock_hand s0 = None then s0\<lparr>clock_hand := Some h\<rparr> else s0)"
    have fr: "freelist s1 = freelist s" "swap_bitmap s1 = swap_bitmap s" "swap_dev s1 = swap_dev s"
      by (simp_all add: s1_def s0_def)
    from Some have h0: "lru_head s0 = Some h" by (simp add: s0_def)
    from assms acq h0 obtain c v s2 where lp: "select_loop n c s1 = Inr (v, s2)"
      and rl: "release_lru s2 = Inr s'"
      by (auto simp: select_victim_def Let_def s1_def split: option.splits if_splits sum.splits)
    from rl have "s' = s2\<lparr>lru_locked := False\<rparr>"
      by (auto simp: release_lru_def split: if_splits)
    with select_loop_frame [OF lp] fr free show ?thesis by simp
  qed
qed

lemma kfree_effect:
  assumes "kfree P pa s = Inr s'"
  shows "freelist s' = pa # freelist s" "swap_bitmap s' = swap_bitmap s" "pages s' = pages s"
    "kernel_end P \<le> pa" "pa < PHYSTOP" "pa mod PGSIZE = 0"
  using assms by (auto simp: kfree_def Let_def split: if_splits)

lemma allocswap_effect:
  assumes "allocswap P s = Inr (b, s')"
  shows "b < max_swap_pages P" "\<not> swap_bitmap s b" "s' = s\<lparr>swap_bitmap := (swap_bitmap s)(b := True)\<rparr>"
proof -
  from assms have f: "find (\<lambda>i. \<not> swap_bitmap s i) [0..<max_swap_pages P] = Some b"
    and s': "s' = s\<lparr>swap_bitmap := (swap_bitmap s)(b := True)\<rparr>"
    by (auto simp: allocswap_def split: option.splits)
  from f show "b < max_swap_pages P" "\<not> swap_bitmap s b"
    by (auto simp: find_Some_iff)
  from s' show "s' = s\<lparr>swap_bitmap := (swap_bitmap s)(b := True)\<rparr>" .
qed

text \<open>The cases of \<open>evictpage\<close>, with the state each one returns.\<close>

lemma evictpage_cases:
  assumes ev: "evictpage P n s = Inr (ok, s')"
  obtains (none) s1 where "select_victim n s = Inr (None, s1)" "\<not> ok" "s' = s1"
  | (absent) v s1 where "select_victim n s = Inr (Some v, s1)" "\<not> ok" "s' = s1"
  | (evicted) v s1 pte b s6 s8 where "select_victim n s = Inr (Some v, s1)"
      "pte_slot (mem s1) (pg_pagetable (pages s1 v)) (pg_vaddr (pages s1 v)) = Some pte"
      "pg_vaddr (pages s1 v) < MAXVA" "mem s1 pte AND PTE_V \<noteq> 0"
      "b < max_swap_pages P" "\<not> swap_bitmap s1 b"
      "lru_remove v True
         (s1\<lparr>swap_bitmap := (swap_bitmap s1)(b := True),
              swap_dev := (swap_dev s1)(int b := (\<lambda>off. if off < PGSIZE
                 then mem s1 (PTE2PA (mem s1 pte) + off) else 0)),
              swap_out_count := swap_out_count s1 + 1\<rparr>) = Inr s6"
      "kfree P (PTE2PA (mem s1 pte))
         (s6\<lparr>mem := (mem s1)(pte := push_bit 12 (word_of_nat b)
            OR ((PTE_FLAGS (mem s1 pte) AND (PTE_R OR PTE_W OR PTE_X OR PTE_U)) AND NOT PTE_V)
            OR PTE_SWAP)\<rparr>) = Inr s8"
      "ok"
      "s' = set_is_page_table (pgidx (PTE2PA (mem s1 pte))) False
              (set_in_lru (pgidx (PTE2PA (mem s1 pte))) False
                (set_vaddr (pgidx (PTE2PA (mem s1 pte))) 0
                  (set_pagetable (pgidx (PTE2PA (mem s1 pte))) 0 s8)))"
proof -
  from ev obtain r s1 where sv: "select_victim n s = Inr (r, s1)"
    by (cases "select_victim n s") (auto simp: evictpage_def)
  show ?thesis
  proof (cases r)
    case None
    with ev sv show ?thesis by (intro none [of s1]) (simp_all add: evictpage_def)
  next
    case (Some v)
    define vpt where "vpt = pg_pagetable (pages s1 v)"
    define vva where "vva = pg_vaddr (pages s1 v)"
    from ev sv Some have nv: "\<not> MAXVA \<le> vva"
      by (auto simp: evictpage_def Let_def vva_def split: if_splits)
    from ev sv Some nv obtain w where w0: "walk0 (mem s1) vpt vva = Inr w"
      by (cases "walk0 (mem s1) vpt vva")
         (auto simp: evictpage_def Let_def walk_noalloc vpt_def vva_def)
    show ?thesis
    proof (cases w)
      case None
      with ev sv Some nv w0 show ?thesis
        by (intro absent [of v s1]) (simp_all add: evictpage_def Let_def walk_noalloc vpt_def vva_def)
    next
      case (Some pte)
      from ev sv \<open>r = Some v\<close> nv w0 Some have ram: "in_ram pte"
        by (auto simp: evictpage_def Let_def walk_noalloc vpt_def vva_def split: if_splits)
      with w0 Some have slot: "pte_slot (mem s1) vpt vva = Some pte" by (simp add: pte_slot_def)
      show ?thesis
      proof (cases "mem s1 pte AND PTE_V = 0")
        case True
        with ev sv \<open>r = Some v\<close> nv w0 Some ram show ?thesis
          by (intro absent [of v s1]) (simp_all add: evictpage_def Let_def walk_noalloc vpt_def vva_def)
      next
        case False
        from ev sv \<open>r = Some v\<close> nv w0 Some ram False obtain b s3 where al: "allocswap P s1 = Inr (b, s3)"
          by (cases "allocswap P s1") (auto simp: evictpage_def Let_def walk_noalloc vpt_def vva_def)
        note ae = allocswap_effect [OF al]
        define pa where "pa = PTE2PA (mem s1 pte)"
        define s5 where "s5 = s1\<lparr>swap_bitmap := (swap_bitmap s1)(b := True),
              swap_dev := (swap_dev s1)(int b := (\<lambda>off. if off < PGSIZE then mem s1 (pa + off) else 0)),
              swap_out_count := swap_out_count s1 + 1\<rparr>"
        have s5: "(swapwrite pa (int b) s3)\<lparr>swap_out_count := swap_out_count (swapwrite pa (int b) s3) + 1\<rparr> = s5"
          by (simp add: s5_def swapwrite_def ae(3) cong: if_cong)
        from ev sv \<open>r = Some v\<close> nv w0 Some ram False al obtain s6 where rm: "lru_remove v True s5 = Inr s6"
          by (cases "lru_remove v True s5")
             (auto simp: evictpage_def Let_def walk_noalloc vpt_def vva_def pa_def [symmetric] s5)
        note rf = lru_remove_frame [OF rm]
        have m6: "mem s6 = mem s1" using rf(3) by (simp add: s5_def)
        define W where "W = push_bit 12 (word_of_nat b)
            OR ((PTE_FLAGS (mem s1 pte) AND (PTE_R OR PTE_W OR PTE_X OR PTE_U)) AND NOT PTE_V) OR PTE_SWAP"
        define s7 where "s7 = s6\<lparr>mem := (mem s1)(pte := W)\<rparr>"
        from ev sv \<open>r = Some v\<close> nv w0 Some ram False al rm obtain s8 where kf: "kfree P pa s7 = Inr s8"
          and res: "ok" "s' = set_is_page_table (pgidx pa) False (set_in_lru (pgidx pa) False
                                             (set_vaddr (pgidx pa) 0 (set_pagetable (pgidx pa) 0 s8)))"
          by (cases "kfree P pa s7")
             (auto simp: evictpage_def Let_def walk_noalloc vpt_def vva_def pa_def [symmetric] s5 m6
                W_def [symmetric] s7_def [symmetric])
        from nv have "vva < MAXVA" by simp
        with sv \<open>r = Some v\<close> slot False ae(1,2) rm kf res show ?thesis
          unfolding vpt_def vva_def pa_def s5_def s7_def W_def
          by (intro evicted [of v s1 pte b s6 s8]) simp_all
      qed
    qed
  qed
qed

lemma evictpage_effect:
  assumes "evictpage P n s = Inr (ok, s')"
  shows "if ok
         then (\<exists>pa. freelist s' = pa # freelist s) \<and>
              (\<exists>b. b < max_swap_pages P \<and> \<not> swap_bitmap s b \<and> swap_bitmap s' = (swap_bitmap s)(b := True))
         else freelist s' = freelist s \<and> swap_bitmap s' = swap_bitmap s"
  using assms
proof (cases rule: evictpage_cases)
  case (none s1)
  with select_victim_frame [OF none(1)] show ?thesis by simp
next
  case (absent v s1)
  with select_victim_frame [OF absent(1)] show ?thesis by simp
next
  case (evicted v s1 pte b s6 s8)
  note fr = select_victim_frame [OF evicted(1)]
  note rf = lru_remove_frame [OF evicted(7)]
  note ke = kfree_effect [OF evicted(8)]
  from evicted(9,10) fr rf ke evicted(5,6) show ?thesis by auto
qed

subsection \<open>The swap-in paths\<close>

lemma lru_add_fresh:
  assumes "p < NPAGES" "va < MAXVA" "\<not> is_page_table (pages s p)" "\<not> in_lru (pages s p)"
    and "lru_head s \<noteq> None \<longrightarrow> lru_tail s \<noteq> None" and "\<not> lru_locked s"
  shows "\<exists>s'. lru_add p pt va True s = Inr s' \<and> in_lru (pages s' p) \<and> lru_tail s' = Some p
           \<and> pg_vaddr (pages s' p) = va \<and> pg_pagetable (pages s' p) = pt \<and> mem s' = mem s
           \<and> \<not> lru_locked s'"
proof (cases "lru_head s")
  case None
  with assms show ?thesis
    by (simp add: lru_add_locked lru_add_unlocked lru_add_body_def lru_add_link_def Let_def not_le [symmetric])
next
  case (Some h)
  with assms obtain t where t: "lru_tail s = Some t" by auto
  from assms Some t show ?thesis
    by (simp add: lru_add_locked lru_add_unlocked lru_add_body_def lru_add_link_def Let_def not_le [symmetric])
qed

lemma pte_valid_or [simp]: "(x OR y OR PTE_V) AND PTE_V \<noteq> 0"
proof
  assume "(x OR y OR PTE_V) AND PTE_V = 0"
  then have "bit ((x OR y OR PTE_V) AND PTE_V) 0 = bit (0 :: 64 word) 0" by simp
  then show False by (simp add: PTE_V_def bit_simps)
qed

lemma freeswap_ok:
  "0 \<le> b \<Longrightarrow> b < int (max_swap_pages P) \<Longrightarrow>
     freeswap P b s = Inr (s\<lparr>swap_bitmap := (swap_bitmap s)(nat b := False)\<rparr>)"
  by (simp add: freeswap_def)

lemma walkaddr_swapin:
  assumes slot: "pte_slot (mem s) pagetable va = Some pte" and va: "va < MAXVA"
    and sw: "mem s pte AND PTE_V = 0" "mem s pte AND PTE_SWAP \<noteq> 0"
    and ka: "kalloc P n s = Inr (Some m, s1)"
    and blk: "0 \<le> pte2ppn P (mem s pte)" "pte2ppn P (mem s pte) < int (max_swap_pages P)"
  shows "walkaddr P n pagetable va s =
     (let b = pte2ppn P (mem s pte);
          s2 = swapread m b s1;
          s4 = s2\<lparr>swap_bitmap := (swap_bitmap s2)(nat b := False), swap_in_count := swap_in_count s2 + 1\<rparr>;
          s5 = s4\<lparr>mem := (mem s4)(pte := PA2PTE m OR (PTE_FLAGS (mem s4 pte) AND NOT PTE_SWAP) OR PTE_V)\<rparr>
      in if \<not> in_lru (pages s1 (pgidx m)) \<and> \<not> is_page_table (pages s1 (pgidx m)) \<and> va \<noteq> 0
         then (case lru_add (pgidx m) pagetable va True s5 of Inl e \<Rightarrow> Inl e | Inr s6 \<Rightarrow> Inr (m, s6))
         else Inr (m, s5))"
  using assms
  by (simp add: walkaddr_def walk_slot pte_slot_in_ram Let_def freeswap_ok swapread_def)

lemma usertrap_swapin:
  assumes slot: "pte_slot (mem s) pagetable va = Some pte" and va: "va < MAXVA"
    and sw: "mem s pte AND PTE_SWAP \<noteq> 0"
    and ka: "kalloc P n s = Inr (Some m, s1)"
    and blk: "0 \<le> pte2ppn P (mem s1 pte)" "pte2ppn P (mem s1 pte) < int (max_swap_pages P)"
  shows "usertrap_pagefault P n pagetable va s =
     (let b = pte2ppn P (mem s1 pte);
          s4 = swapread m b s1;
          s5 = s4\<lparr>swap_bitmap := (swap_bitmap s4)(nat b := False)\<rparr>;
          flags = PTE_FLAGS (mem s5 pte) AND (PTE_R OR PTE_W OR PTE_X OR PTE_U);
          s6 = s5\<lparr>mem := (mem s5)(pte := PA2PTE m OR (flags AND NOT PTE_SWAP) OR PTE_V)\<rparr>
      in if \<not> in_lru (pages s1 (pgidx m)) \<and> \<not> is_page_table (pages s1 (pgidx m))
         then (case lru_add (pgidx m) pagetable va True s6 of Inl e \<Rightarrow> Inl e | Inr s7 \<Rightarrow> Inr (False, s7))
         else Inr (False, s6))"
  using assms
  by (simp add: usertrap_pagefault_def walk_slot pte_slot_in_ram Let_def freeswap_ok swapread_def)

subsection \<open>Evaluation on the concrete states\<close>

lemma slot1: "pte_slot (pt_mem 0x87002008 leaf) 0x87000000 0x1000 = Some 0x87002008"
  by (simp add: pte_slot_def walk0_def pt_mem_def kdefs Let_def)

lemma slot0: "pte_slot (pt_mem 0x87002000 leaf) 0x87000000 0 = Some 0x87002000"
  by (simp add: pte_slot_def walk0_def pt_mem_def kdefs Let_def)

lemma meta1: "pg_pagetable (pages resident_state 0x87003) = 0x87000000"
  "pg_vaddr (pages resident_state 0x87003) = 0x1000"
  "mem resident_state 0x87002008 = 0x21C00C17"
  "pg_next (pages resident_state 0x87003) = Some 0x87003"
  "lru_head resident_state = Some 0x87003" "lru_tail resident_state = Some 0x87003"
  "clock_hand resident_state = None" "\<not> lru_locked resident_state"
  by (simp_all add: resident_state_def boot_state_def linked_def pt_mem_def)

lemma mem_resident: "mem resident_state = pt_mem 0x87002008 0x21C00C17"
  by (simp add: resident_state_def boot_state_def)

lemma sel1: "select_victim (Suc n) resident_state = Inr (Some 0x87003, resident_state\<lparr>clock_hand := Some 0x87003\<rparr>)"
proof -
  have w: "walk no_kalloc 0x87000000 0x1000 False (resident_state\<lparr>lru_locked := True, clock_hand := Some 0x87003\<rparr>)
      = Inr (Some 0x87002008, resident_state\<lparr>lru_locked := True, clock_hand := Some 0x87003\<rparr>)"
    by (rule walk_slot) (simp_all add: mem_resident slot1 MAXVA_def)
  have st: "clock_step 0x87003 (resident_state\<lparr>lru_locked := True, clock_hand := Some 0x87003\<rparr>)
      = Inr (Some 0x87003, resident_state\<lparr>lru_locked := True, clock_hand := Some 0x87003\<rparr>)"
    apply (simp add: clock_step_def meta1 w)
    apply (simp add: kdefs resident_state_def boot_state_def linked_def pt_mem_def)
    done
  have e: "resident_state\<lparr>lru_locked := True, clock_hand := Some 0x87003, lru_locked := False\<rparr>
      = resident_state\<lparr>clock_hand := Some 0x87003\<rparr>"
    by (simp add: resident_state_def boot_state_def)
  show ?thesis
    by (simp add: select_victim_def acquire_lru_def release_lru_def meta1 st MAXVA_def e)
qed

lemma evict_resident:
  "\<exists>s'. evictpage small_platform (Suc n) resident_state = Inr (True, s') \<and> freelist s' = [0x87003000]
     \<and> mem s' 0x87002008 = 0x216 \<and> swap_bitmap s' = (\<lambda>i. False)(0 := True)
     \<and> pte_slot (mem s') 0x87000000 0x1000 = Some 0x87002008
     \<and> \<not> in_lru (pages s' 0x87003) \<and> \<not> is_page_table (pages s' 0x87003)
     \<and> lru_head s' = None \<and> num_lru_pages s' = 0 \<and> lru_locked s'"
proof -
  let ?s1 = "resident_state\<lparr>clock_hand := Some 0x87003\<rparr>"
  have w: "walk no_kalloc 0x87000000 0x1000 False ?s1 = Inr (Some 0x87002008, ?s1)"
    by (rule walk_slot) (simp_all add: mem_resident slot1 MAXVA_def)
  have al: "allocswap small_platform ?s1 = Inr (0, ?s1\<lparr>swap_bitmap := (\<lambda>i. False)(0 := True)\<rparr>)"
    by (simp add: allocswap_def small_platform_def upt_rec [of 0] resident_state_def boot_state_def)
  show ?thesis
    apply (simp add: evictpage_def sel1 meta1 w Let_def MAXVA_def PTE_V_def al in_ram_def KERNBASE_def PHYSTOP_def)
    apply (simp add: swapwrite_def lru_remove_def acquire_lru_def release_lru_def check_lru_consistency_def
        lru_unlink_def setters kfree_def kdefs memset_page_def Let_def small_platform_def resident_state_def
        boot_state_def linked_def pt_mem_def pte_slot_def walk0_def)
    done
qed

subsection \<open>C1: uvmunmap on a swapped-out page\<close>

text \<open>
  C1 (the code departs from the claim). The claim has \<open>uvmunmap\<close> with \<open>do_free\<close> set free
  the swap slot of a swapped-out leaf entry (V clear, SWAP set), zero the entry and not
  abort. In the code the test of the V bit comes first: on every page-aligned \<open>va\<close> whose
  leaf entry has V clear, swapped-out or not, \<open>uvmunmap\<close> panics with
  "uvmunmap: not mapped", whatever \<open>do_free\<close> is. The call of \<open>freeswap\<close> stands in the
  \<open>else\<close> of \<open>if (do_free)\<close>, behind that test.
\<close>

theorem uvmunmap_swapped_panics:
  assumes "pte_slot (mem s) pagetable va = Some pte" and "va < MAXVA"
    and "mem s pte AND PTE_V = 0" and "va mod PGSIZE = 0" and "va < va + npages * PGSIZE"
  shows "uvmunmap P (Suc k) pagetable va npages do_free s = Inl (Panic ''uvmunmap: not mapped'')"
  using assms by (simp add: uvmunmap_def walk_slot pte_slot_in_ram)

text \<open>The leaf entry \<open>0x216\<close> is swapped-out: slot 0, R, W, U and SWAP, V clear.\<close>

theorem uvmunmap_swapped_panics_witness:
  "mem (one_page 0x87002008 0x216) 0x87002008 AND PTE_V = 0
   \<and> mem (one_page 0x87002008 0x216) 0x87002008 AND PTE_SWAP \<noteq> 0
   \<and> uvmunmap small_platform 1 0x87000000 0x1000 1 True (one_page 0x87002008 0x216)
       = Inl (Panic ''uvmunmap: not mapped'')"
proof -
  have a: "pte_slot (mem (one_page 0x87002008 0x216)) 0x87000000 0x1000 = Some 0x87002008"
    by (simp add: one_page_def slot1)
  have b: "mem (one_page 0x87002008 0x216) 0x87002008 AND PTE_V = 0"
    "mem (one_page 0x87002008 0x216) 0x87002008 AND PTE_SWAP \<noteq> 0"
    by (simp_all add: one_page_def pt_mem_def kdefs)
  have c: "(0x1000 :: 64 word) < MAXVA" "(0x1000 :: 64 word) mod PGSIZE = 0"
    "(0x1000 :: 64 word) < 0x1000 + 1 * PGSIZE"
    by (simp_all add: kdefs)
  from uvmunmap_swapped_panics [OF a c(1) b(1) c(2) c(3), of small_platform 0 True] b
  show ?thesis by simp
qed

subsection \<open>C3: the count of the list\<close>

text \<open>
  C3 (the code departs from the claim). The claim has \<open>lru_add\<close> on an entry that is
  already linked move it to the tail and leave \<open>num_lru_pages\<close> as it was. In the code
  the unlinking block decrements the count and the append increments it only when the
  entry was not linked on entry: on the list of two entries, \<open>lru_add\<close> of the head, called
  as the rotation of \<open>select_victim\<close> calls it (\<open>use_lock = 0\<close>), leaves two entries
  linked, two entries counted by the consistency check, and \<open>num_lru_pages = 1\<close>.
\<close>

theorem lru_add_relink_drops_count:
  "lru_count lru_two = 2 \<and> num_lru_pages lru_two = 2 \<and>
   (\<exists>s'. lru_add 1 0 0x1000 False lru_two = Inr s' \<and> lru_count s' = 2 \<and> num_lru_pages s' = 1
      \<and> in_lru (pages s' 1) \<and> in_lru (pages s' 2))"
  by (simp add: lru_count_def lru_add_def lru_add_body_def lru_add_link_def lru_add_unlink_def lru_two_def boot_state_def
       linked_def empty_page_def setters NPAGES_def MAXVA_def Let_def
       lru_count_from.simps [of _ _ 0] lru_count_from.simps [of _ _ 1]
       lru_count_from.simps [of _ _ "Suc 0"])

theorem lru_add_relink_drops_count_witness:
  "\<exists>s'. lru_add 1 0 0x1000 False lru_two = Inr s' \<and> num_lru_pages s' = num_lru_pages lru_two - 1"
  using lru_add_relink_drops_count by auto

subsection \<open>C4: walkaddr and the User bit\<close>

text \<open>
  C4 (the code departs from the claim). The claim has \<open>walkaddr\<close> return 0 for a leaf entry
  without the User bit, on the swap-in path too. The code tests \<open>PTE_U\<close> only after the
  swap-in branch has returned: for a swapped-out entry with the User bit clear it allocates
  a frame, reads the slot and returns the address of the frame; when \<open>lru_lock\<close> is held on
  entry and the frame is to be linked, the call panics in \<open>acquire\<close> instead. In neither
  case does it return 0.
\<close>

theorem walkaddr_swapin_ignores_user_bit:
  assumes slot: "pte_slot (mem s) pagetable va = Some pte" and va: "va < MAXVA"
    and sw: "mem s pte AND PTE_V = 0" "mem s pte AND PTE_SWAP \<noteq> 0"
    and nouser: "mem s pte AND PTE_U = 0"
    and ka: "kalloc P n s = Inr (Some m, s1)"
    and blk: "0 \<le> pte2ppn P (mem s pte)" "pte2ppn P (mem s pte) < int (max_swap_pages P)"
    and fresh: "pgidx m < NPAGES" "lru_head s1 \<noteq> None \<longrightarrow> lru_tail s1 \<noteq> None"
  shows "if lru_locked s1 \<and> \<not> in_lru (pages s1 (pgidx m)) \<and> \<not> is_page_table (pages s1 (pgidx m)) \<and> va \<noteq> 0
         then walkaddr P n pagetable va s = Inl (Panic ''acquire'')
         else \<exists>s'. walkaddr P n pagetable va s = Inr (m, s')"
proof -
  let ?b = "pte2ppn P (mem s pte)"
  let ?s2 = "swapread m ?b s1"
  let ?s4 = "?s2\<lparr>swap_bitmap := (swap_bitmap ?s2)(nat ?b := False), swap_in_count := swap_in_count ?s2 + 1\<rparr>"
  let ?s5 = "?s4\<lparr>mem := (mem ?s4)(pte := PA2PTE m OR (PTE_FLAGS (mem ?s4 pte) AND NOT PTE_SWAP) OR PTE_V)\<rparr>"
  note w = walkaddr_swapin [OF slot va sw ka blk]
  show ?thesis
  proof (cases "\<not> in_lru (pages s1 (pgidx m)) \<and> \<not> is_page_table (pages s1 (pgidx m)) \<and> va \<noteq> 0")
    case False
    with w show ?thesis by (auto simp: Let_def)
  next
    case True
    show ?thesis
    proof (cases "lru_locked s1")
      case held: True
      have "lru_locked ?s5" using held by (simp add: swapread_def)
      from lru_add_held [OF this, of "pgidx m" pagetable va] True fresh va
      have "lru_add (pgidx m) pagetable va True ?s5 = Inl (Panic ''acquire'')"
        by (simp add: swapread_def not_le [symmetric])
      with w True held show ?thesis by (simp add: Let_def)
    next
      case free: False
      have "\<exists>s'. lru_add (pgidx m) pagetable va True ?s5 = Inr s' \<and> in_lru (pages s' (pgidx m)) \<and> lru_tail s' = Some (pgidx m)
             \<and> pg_vaddr (pages s' (pgidx m)) = va \<and> pg_pagetable (pages s' (pgidx m)) = pagetable \<and> mem s' = mem ?s5
             \<and> \<not> lru_locked s'"
        using True fresh va free by (intro lru_add_fresh) (simp_all add: swapread_def)
      then obtain s' where "lru_add (pgidx m) pagetable va True ?s5 = Inr s'" by (elim conjE exE)
      with w True free show ?thesis by (simp add: Let_def)
    qed
  qed
qed

text \<open>
  The leaf entry \<open>0x206\<close> is swapped-out with R and W and without U; the frame returned is
  \<open>0x87003000\<close>, not 0.
\<close>

theorem walkaddr_swapin_ignores_user_bit_witness:
  "mem (one_page 0x87002008 0x206) 0x87002008 AND PTE_U = 0
   \<and> (\<exists>s'. walkaddr small_platform 1 0x87000000 0x1000 ((one_page 0x87002008 0x206)\<lparr>freelist := [0x87003000]\<rparr>)
          = Inr (0x87003000, s'))"
proof -
  let ?s = "(one_page 0x87002008 0x206)\<lparr>freelist := [0x87003000]\<rparr>"
  have a: "pte_slot (mem ?s) 0x87000000 0x1000 = Some 0x87002008"
    by (simp add: one_page_def slot1)
  have m: "mem ?s 0x87002008 = 0x206" by (simp add: one_page_def pt_mem_def)
  have b: "mem ?s 0x87002008 AND PTE_V = 0" "mem ?s 0x87002008 AND PTE_SWAP \<noteq> 0"
    "mem ?s 0x87002008 AND PTE_U = 0"
    unfolding m by (simp_all add: kdefs)
  have c: "(0x1000 :: 64 word) < MAXVA" by (simp add: kdefs)
  have k: "kalloc small_platform 1 ?s = Inr (Some 0x87003000,
      (one_page 0x87002008 0x206)\<lparr>freelist := [], mem := memset_page 0x87003000 0x0505050505050505 (mem (one_page 0x87002008 0x206))\<rparr>)"
    by simp
  have d: "0 \<le> pte2ppn small_platform (mem ?s 0x87002008)"
    "pte2ppn small_platform (mem ?s 0x87002008) < int (max_swap_pages small_platform)"
    unfolding m by (simp_all add: small_platform_def)
  have e: "pgidx 0x87003000 < NPAGES" by (simp add: kdefs)
  from walkaddr_swapin_ignores_user_bit [OF a c b k d e] b(3)
  show ?thesis by (simp add: one_page_def boot_state_def)
qed

subsection \<open>C6: kalloc\<close>

text \<open>
  C6. \<open>kalloc\<close> pops and returns the head of the free list when the list is not empty.
  When it is empty, \<open>kalloc\<close> calls \<open>evictpage\<close>: if the eviction fails it returns null;
  if it succeeds, the retry pops the frame the eviction has just freed. \<open>kalloc\<close> returns
  null only when the list was empty and an eviction failed.
\<close>

theorem kalloc_pops_or_evicts:
  "(freelist s = r # rest \<longrightarrow>
      kalloc P (Suc n) s =
        Inr (Some r, s\<lparr>freelist := rest, mem := memset_page r 0x0505050505050505 (mem s)\<rparr>))
   \<and> (freelist s = [] \<longrightarrow> evictpage P n s = Inr (False, s1) \<longrightarrow>
        kalloc P (Suc n) s = Inr (None, s1))
   \<and> (freelist s = [] \<longrightarrow> evictpage P (Suc n) s = Inr (True, s1) \<longrightarrow>
        (\<exists>pa. freelist s1 = [pa] \<and>
           kalloc P (Suc (Suc n)) s =
             Inr (Some pa, s1\<lparr>freelist := [], mem := memset_page pa 0x0505050505050505 (mem s1)\<rparr>)))
   \<and> (kalloc P n s = Inr (None, s2) \<longrightarrow>
        freelist s = [] \<and> (\<exists>k. evictpage P k s = Inr (False, s2)))"
proof -
  have pop: "kalloc P (Suc n) s =
        Inr (Some r, s\<lparr>freelist := rest, mem := memset_page r 0x0505050505050505 (mem s)\<rparr>)"
    if "freelist s = r # rest"
    using that by simp
  have fail: "kalloc P (Suc n) s = Inr (None, s1)"
    if "freelist s = []" "evictpage P n s = Inr (False, s1)"
    using that by simp
  have retry: "\<exists>pa. freelist s1 = [pa] \<and>
           kalloc P (Suc (Suc n)) s =
             Inr (Some pa, s1\<lparr>freelist := [], mem := memset_page pa 0x0505050505050505 (mem s1)\<rparr>)"
    if e: "freelist s = []" and ev: "evictpage P (Suc n) s = Inr (True, s1)"
  proof -
    from evictpage_effect [OF ev] e obtain pa where "freelist s1 = [pa]" by auto
    with e ev show ?thesis by simp
  qed
  have null: "freelist s = [] \<and> (\<exists>k. evictpage P k s = Inr (False, s2))"
    if k: "kalloc P n s = Inr (None, s2)"
  proof -
    from k obtain m where n: "n = Suc m" by (cases n) auto
  from k n have e: "freelist s = []" by (cases "freelist s") auto
  from k n e obtain ok s1 where ev: "evictpage P m s = Inr (ok, s1)"
    by (cases "evictpage P m s") auto
  have "\<not> ok"
  proof
    assume ok
    with evictpage_effect [OF ev] obtain pa where f: "freelist s1 = pa # freelist s" by auto
    from k n e ev \<open>ok\<close> have "kalloc P m s1 = Inr (None, s2)" by simp
    with f show False by (cases m) auto
  qed
  with k n e ev have "s2 = s1" by simp
    with ev \<open>\<not> ok\<close> e show ?thesis by auto
  qed
  from pop fail retry null show ?thesis by blast
qed

theorem kalloc_pops_or_evicts_witness:
  "kalloc small_platform 1 (boot_state\<lparr>freelist := [0x87003000]\<rparr>) =
      Inr (Some 0x87003000, boot_state\<lparr>freelist := [],
             mem := memset_page 0x87003000 0x0505050505050505 (mem (boot_state\<lparr>freelist := [0x87003000]\<rparr>))\<rparr>)
   \<and> kalloc small_platform 1 boot_state = Inr (None, boot_state)
   \<and> (\<exists>pa s'. kalloc small_platform 2 resident_state = Inr (Some pa, s'))"
proof -
  have a: "freelist (boot_state\<lparr>freelist := [0x87003000]\<rparr>) = [0x87003000]" by simp
  have b: "freelist boot_state = []" "evictpage small_platform 0 boot_state = Inr (False, boot_state)"
    by (simp_all add: boot_state_def evictpage_def select_victim_def acquire_lru_def release_lru_def)
  have c: "freelist resident_state = []" by (simp add: resident_state_def boot_state_def)
  from evict_resident [of 0] obtain s1 where
    ev: "evictpage small_platform (Suc 0) resident_state = Inr (True, s1)" by auto
  note k1 = kalloc_pops_or_evicts [of "boot_state\<lparr>freelist := [0x87003000]\<rparr>" "0x87003000" "[]" small_platform 0]
  note k2 = kalloc_pops_or_evicts [of boot_state _ _ small_platform 0 boot_state]
  note k3 = kalloc_pops_or_evicts [of resident_state _ _ small_platform 0 s1]
  from k1 a have "kalloc small_platform 1 (boot_state\<lparr>freelist := [0x87003000]\<rparr>) =
      Inr (Some 0x87003000, boot_state\<lparr>freelist := [],
             mem := memset_page 0x87003000 0x0505050505050505 (mem (boot_state\<lparr>freelist := [0x87003000]\<rparr>))\<rparr>)"
    by simp
  moreover from k2 b have "kalloc small_platform 1 boot_state = Inr (None, boot_state)" by simp
  moreover from k3 c ev have "\<exists>pa s'. kalloc small_platform 2 resident_state = Inr (Some pa, s')"
    by (auto simp: numeral_2_eq_2)
  ultimately show ?thesis by blast
qed

subsection \<open>C9: evictpage and the free list\<close>



subsection \<open>C10: the swap-in of walkaddr at address 0\<close>

text \<open>
  C10. For a swapped-out leaf entry that \<open>walkaddr\<close> faults in to a frame that is neither
  linked nor marked as a page table: at \<open>va = 0\<close> the page becomes resident and the list
  and the table \<open>pages[]\<close> stay as \<open>kalloc\<close> left them, so the frame is not linked; at
  any other \<open>va\<close> below \<open>MAXVA\<close> the frame is linked at the tail. The page-fault path of
  \<open>usertrap\<close> links the frame at the tail for every \<open>va\<close> below \<open>MAXVA\<close>, 0 included.
  Linking takes \<open>lru_lock\<close>: where the frame is linked, a call made with the lock held
  panics in \<open>acquire\<close>.
\<close>

theorem walkaddr_skips_lru_at_va_zero:
  assumes slot: "pte_slot (mem s) pagetable va = Some pte" and va: "va < MAXVA"
    and sw: "mem s pte AND PTE_V = 0" "mem s pte AND PTE_SWAP \<noteq> 0"
    and ka: "kalloc P n s = Inr (Some m, s1)" and same: "mem s1 pte = mem s pte"
    and blk: "0 \<le> pte2ppn P (mem s pte)" "pte2ppn P (mem s pte) < int (max_swap_pages P)"
    and fresh: "\<not> in_lru (pages s1 (pgidx m))" "\<not> is_page_table (pages s1 (pgidx m))"
      "pgidx m < NPAGES" "lru_head s1 \<noteq> None \<longrightarrow> lru_tail s1 \<noteq> None"
  shows "(va = 0 \<longrightarrow>
           (\<exists>s'. walkaddr P n pagetable va s = Inr (m, s') \<and> mem s' pte AND PTE_V \<noteq> 0
              \<and> pages s' = pages s1 \<and> lru_head s' = lru_head s1 \<and> lru_tail s' = lru_tail s1
              \<and> num_lru_pages s' = num_lru_pages s1 \<and> \<not> in_lru (pages s' (pgidx m))))
       \<and> (va \<noteq> 0 \<longrightarrow>
           (if lru_locked s1 then walkaddr P n pagetable va s = Inl (Panic ''acquire'')
            else \<exists>s'. walkaddr P n pagetable va s = Inr (m, s') \<and> mem s' pte AND PTE_V \<noteq> 0
              \<and> in_lru (pages s' (pgidx m)) \<and> lru_tail s' = Some (pgidx m)))
       \<and> (if lru_locked s1 then usertrap_pagefault P n pagetable va s = Inl (Panic ''acquire'')
          else \<exists>s'. usertrap_pagefault P n pagetable va s = Inr (False, s') \<and> mem s' pte AND PTE_V \<noteq> 0
              \<and> in_lru (pages s' (pgidx m)) \<and> lru_tail s' = Some (pgidx m))"
proof -
  note w = walkaddr_swapin [OF slot va sw ka blk]
  from blk same have blk1: "0 \<le> pte2ppn P (mem s1 pte)" "pte2ppn P (mem s1 pte) < int (max_swap_pages P)"
    by simp_all
  note u = usertrap_swapin [OF slot va sw(2) ka blk1]
  let ?b = "pte2ppn P (mem s pte)"
  let ?s2 = "swapread m ?b s1"
  let ?s4 = "?s2\<lparr>swap_bitmap := (swap_bitmap ?s2)(nat ?b := False), swap_in_count := swap_in_count ?s2 + 1\<rparr>"
  let ?s5 = "?s4\<lparr>mem := (mem ?s4)(pte := PA2PTE m OR (PTE_FLAGS (mem ?s4 pte) AND NOT PTE_SWAP) OR PTE_V)\<rparr>"
  let ?c = "pte2ppn P (mem s1 pte)"
  let ?t4 = "swapread m ?c s1"
  let ?t5 = "?t4\<lparr>swap_bitmap := (swap_bitmap ?t4)(nat ?c := False)\<rparr>"
  let ?t6 = "?t5\<lparr>mem := (mem ?t5)(pte := PA2PTE m OR
      ((PTE_FLAGS (mem ?t5 pte) AND (PTE_R OR PTE_W OR PTE_X OR PTE_U)) AND NOT PTE_SWAP) OR PTE_V)\<rparr>"
  have zero: "\<exists>s'. walkaddr P n pagetable va s = Inr (m, s') \<and> mem s' pte AND PTE_V \<noteq> 0
              \<and> pages s' = pages s1 \<and> lru_head s' = lru_head s1 \<and> lru_tail s' = lru_tail s1
              \<and> num_lru_pages s' = num_lru_pages s1 \<and> \<not> in_lru (pages s' (pgidx m))" if "va = 0"
    using w that fresh by (simp add: Let_def swapread_def)
  have nonzero: "\<exists>s'. walkaddr P n pagetable va s = Inr (m, s') \<and> mem s' pte AND PTE_V \<noteq> 0
              \<and> in_lru (pages s' (pgidx m)) \<and> lru_tail s' = Some (pgidx m)"
    if nz: "va \<noteq> 0" and free: "\<not> lru_locked s1"
  proof -
    have "\<exists>s'. lru_add (pgidx m) pagetable va True ?s5 = Inr s' \<and> in_lru (pages s' (pgidx m)) \<and> lru_tail s' = Some (pgidx m)
           \<and> pg_vaddr (pages s' (pgidx m)) = va \<and> pg_pagetable (pages s' (pgidx m)) = pagetable \<and> mem s' = mem ?s5
           \<and> \<not> lru_locked s'"
      using fresh va free by (intro lru_add_fresh) (simp_all add: swapread_def)
    then obtain s' where "lru_add (pgidx m) pagetable va True ?s5 = Inr s'" "in_lru (pages s' (pgidx m))"
      "lru_tail s' = Some (pgidx m)" "mem s' = mem ?s5" by (elim conjE exE)
    with w nz fresh show ?thesis by (simp add: Let_def)
  qed
  have nonzero_held: "walkaddr P n pagetable va s = Inl (Panic ''acquire'')"
    if nz: "va \<noteq> 0" and held: "lru_locked s1"
  proof -
    have "lru_locked ?s5" using held by (simp add: swapread_def)
    from lru_add_held [OF this, of "pgidx m" pagetable va] fresh va
    have "lru_add (pgidx m) pagetable va True ?s5 = Inl (Panic ''acquire'')"
      by (simp add: swapread_def not_le [symmetric])
    with w nz fresh show ?thesis by (simp add: Let_def)
  qed
  have trap: "\<exists>s'. usertrap_pagefault P n pagetable va s = Inr (False, s') \<and> mem s' pte AND PTE_V \<noteq> 0
              \<and> in_lru (pages s' (pgidx m)) \<and> lru_tail s' = Some (pgidx m)"
    if free: "\<not> lru_locked s1"
  proof -
    have "\<exists>s'. lru_add (pgidx m) pagetable va True ?t6 = Inr s' \<and> in_lru (pages s' (pgidx m)) \<and> lru_tail s' = Some (pgidx m)
           \<and> pg_vaddr (pages s' (pgidx m)) = va \<and> pg_pagetable (pages s' (pgidx m)) = pagetable \<and> mem s' = mem ?t6
           \<and> \<not> lru_locked s'"
      using fresh va free by (intro lru_add_fresh) (simp_all add: swapread_def)
    then obtain s' where "lru_add (pgidx m) pagetable va True ?t6 = Inr s'" "in_lru (pages s' (pgidx m))"
      "lru_tail s' = Some (pgidx m)" "mem s' = mem ?t6" by (elim conjE exE)
    with u fresh show ?thesis by (simp add: Let_def)
  qed
  have trap_held: "usertrap_pagefault P n pagetable va s = Inl (Panic ''acquire'')"
    if held: "lru_locked s1"
  proof -
    have "lru_locked ?t6" using held by (simp add: swapread_def)
    from lru_add_held [OF this, of "pgidx m" pagetable va] fresh va
    have "lru_add (pgidx m) pagetable va True ?t6 = Inl (Panic ''acquire'')"
      by (simp add: swapread_def not_le [symmetric])
    with u fresh show ?thesis by (simp add: Let_def)
  qed
  from zero nonzero nonzero_held trap trap_held show ?thesis by (cases "lru_locked s1") simp_all
qed

theorem walkaddr_skips_lru_at_va_zero_witness:
  "(\<exists>s'. walkaddr small_platform 1 0x87000000 0 ((one_page 0x87002000 0x216)\<lparr>freelist := [0x87003000]\<rparr>)
           = Inr (0x87003000, s') \<and> \<not> in_lru (pages s' 0x87003))
   \<and> (\<exists>s'. usertrap_pagefault small_platform 1 0x87000000 0 ((one_page 0x87002000 0x216)\<lparr>freelist := [0x87003000]\<rparr>)
           = Inr (False, s') \<and> in_lru (pages s' 0x87003))
   \<and> (\<exists>s'. walkaddr small_platform 1 0x87000000 0x1000 ((one_page 0x87002008 0x216)\<lparr>freelist := [0x87003000]\<rparr>)
           = Inr (0x87003000, s') \<and> in_lru (pages s' 0x87003))"
proof -
  let ?z = "(one_page 0x87002000 0x216)\<lparr>freelist := [0x87003000]\<rparr>"
  let ?z1 = "(one_page 0x87002000 0x216)\<lparr>freelist := [],
     mem := memset_page 0x87003000 0x0505050505050505 (mem (one_page 0x87002000 0x216))\<rparr>"
  let ?y = "(one_page 0x87002008 0x216)\<lparr>freelist := [0x87003000]\<rparr>"
  let ?y1 = "(one_page 0x87002008 0x216)\<lparr>freelist := [],
     mem := memset_page 0x87003000 0x0505050505050505 (mem (one_page 0x87002008 0x216))\<rparr>"
  have ix: "pgidx 0x87003000 = 0x87003" by (simp add: kdefs)
  have za: "pte_slot (mem ?z) 0x87000000 0 = Some 0x87002000" by (simp add: one_page_def slot0)
  have zm: "mem ?z 0x87002000 = 0x216" by (simp add: one_page_def pt_mem_def)
  have zb: "mem ?z 0x87002000 AND PTE_V = 0" "mem ?z 0x87002000 AND PTE_SWAP \<noteq> 0"
    unfolding zm by (simp_all add: kdefs)
  have zk: "kalloc small_platform 1 ?z = Inr (Some 0x87003000, ?z1)" by simp
  have zs: "mem ?z1 0x87002000 = mem ?z 0x87002000"
    by (simp add: one_page_def pt_mem_def memset_page_def kdefs)
  have zd: "0 \<le> pte2ppn small_platform (mem ?z 0x87002000)"
    "pte2ppn small_platform (mem ?z 0x87002000) < int (max_swap_pages small_platform)"
    unfolding zm by (simp_all add: small_platform_def)
  have zf: "\<not> in_lru (pages ?z1 (pgidx 0x87003000))" "\<not> is_page_table (pages ?z1 (pgidx 0x87003000))"
    "pgidx 0x87003000 < NPAGES" "lru_head ?z1 \<noteq> None \<longrightarrow> lru_tail ?z1 \<noteq> None"
    by (simp_all add: one_page_def boot_state_def empty_page_def kdefs)
  have zl: "\<not> lru_locked ?z1" by (simp add: one_page_def boot_state_def)
  have v0: "(0 :: 64 word) < MAXVA" by (simp add: kdefs)
  note t0 = walkaddr_skips_lru_at_va_zero [OF za v0 zb zk zs zd zf]
  have ya: "pte_slot (mem ?y) 0x87000000 0x1000 = Some 0x87002008" by (simp add: one_page_def slot1)
  have ym: "mem ?y 0x87002008 = 0x216" by (simp add: one_page_def pt_mem_def)
  have yb: "mem ?y 0x87002008 AND PTE_V = 0" "mem ?y 0x87002008 AND PTE_SWAP \<noteq> 0"
    unfolding ym by (simp_all add: kdefs)
  have yk: "kalloc small_platform 1 ?y = Inr (Some 0x87003000, ?y1)" by simp
  have ys: "mem ?y1 0x87002008 = mem ?y 0x87002008"
    by (simp add: one_page_def pt_mem_def memset_page_def kdefs)
  have yd: "0 \<le> pte2ppn small_platform (mem ?y 0x87002008)"
    "pte2ppn small_platform (mem ?y 0x87002008) < int (max_swap_pages small_platform)"
    unfolding ym by (simp_all add: small_platform_def)
  have yf: "\<not> in_lru (pages ?y1 (pgidx 0x87003000))" "\<not> is_page_table (pages ?y1 (pgidx 0x87003000))"
    "pgidx 0x87003000 < NPAGES" "lru_head ?y1 \<noteq> None \<longrightarrow> lru_tail ?y1 \<noteq> None"
    by (simp_all add: one_page_def boot_state_def empty_page_def kdefs)
  have yl: "\<not> lru_locked ?y1" by (simp add: one_page_def boot_state_def)
  have v1: "(0x1000 :: 64 word) < MAXVA" by (simp add: kdefs)
  note t1 = walkaddr_skips_lru_at_va_zero [OF ya v1 yb yk ys yd yf]
  from t0 t1 zl yl show ?thesis unfolding ix by auto
qed


end
